theory Spec2Isabelle
  imports Main "HOL-Library.Sublist"
begin

section \<open>The size-attribution engine of elmjs-inspector\<close>

text \<open>
  A shallow embedding of the analysis in the later of the two copies of \<^verbatim>\<open>analyse.ts\<close>
  (the one with the \<^verbatim>\<open>right\<close> boundary flag, the aliasing test and the \<^verbatim>\<open>$\<close> filter).
  The collaborators that are not code of the repository are parameters:
  the Esprima parser is a function from the text to a syntax tree or an error, and the
  source-map consumer is a record of its two lookup functions.
  JavaScript strings are lists of characters, one per code unit; offsets, sizes and
  sums are unbounded integers (the program never leaves the exact range of a double).
  The percentage strings are floating-point renderings and are left out: an entry of
  the report carries the definition and the size that \<^verbatim>\<open>percentage\<close> would receive.
\<close>

subsection \<open>Syntax trees, as far as the extractor reads them\<close>

datatype pattern = Identifier string | OtherPattern

text \<open>A declarator: its \<^verbatim>\<open>id\<close> and its \<^verbatim>\<open>range\<close>.\<close>

datatype declarator = VariableDeclarator pattern "int \<times> int"

text \<open>
  Of a call only the callee is read, of a function expression only the statement list of
  its block, of a function declaration only the name of its \<^verbatim>\<open>id\<close> and its \<^verbatim>\<open>range\<close>.
\<close>

datatype expression =
    CallExpression expression
  | FunctionExpression "statement list"
  | OtherExpression
and statement =
    ExpressionStatement expression
  | FunctionDeclaration string "int \<times> int"
  | VariableDeclaration "declarator list"
  | OtherStatement

record program =
  body :: "statement list"
  prange :: "int \<times> int"

record info =
  name :: string
  irange :: "int \<times> int"

subsection \<open>Errors and JavaScript values\<close>

datatype error = TypeError | SyntaxError | MinificationError | TerserFailed

text \<open>
  A translated offset is a number or \<^verbatim>\<open>null\<close>: \<^verbatim>\<open>generatedPositionFor\<close> answers
  \<^verbatim>\<open>{line: null, column: null}\<close> for a position it cannot map, and the translator
  hands the \<^verbatim>\<open>null\<close> column on. In arithmetic and comparisons \<^verbatim>\<open>null\<close> counts as 0.
\<close>

datatype jsnum = JNull | JNum int

fun toNumber :: "jsnum \<Rightarrow> int" where
  "toNumber JNull = 0"
| "toNumber (JNum n) = n"

subsection \<open>The extractor\<close>

fun initializerBody :: "statement \<Rightarrow> statement list" where
  "initializerBody (ExpressionStatement (CallExpression (FunctionExpression b))) = b"
| "initializerBody _ = []"

definition yieldElmJsStatements :: "program \<Rightarrow> statement list" where
  "yieldElmJsStatements script = concat (map initializerBody (body script))"

fun yieldFunctionDeclarationInfo :: "statement \<Rightarrow> info list" where
  "yieldFunctionDeclarationInfo (FunctionDeclaration n r) = [\<lparr>name = n, irange = r\<rparr>]"
| "yieldFunctionDeclarationInfo _ = []"

fun declarationInfo :: "declarator \<Rightarrow> info list" where
  "declarationInfo (VariableDeclarator (Identifier n) r) = [\<lparr>name = n, irange = r\<rparr>]"
| "declarationInfo (VariableDeclarator OtherPattern r) = []"

fun yieldVariableDeclarationInfos :: "statement \<Rightarrow> info list" where
  "yieldVariableDeclarationInfos (VariableDeclaration ds) = concat (map declarationInfo ds)"
| "yieldVariableDeclarationInfos _ = []"

definition yieldElmJsDefinitionInfos :: "program \<Rightarrow> info list" where
  "yieldElmJsDefinitionInfos script =
     concat (map (\<lambda>s. yieldFunctionDeclarationInfo s @ yieldVariableDeclarationInfos s)
                 (yieldElmJsStatements script))"

text \<open>
  The extractor as the specification words it, for one statement of the enclosing
  initializer: a function declaration gives one definition, a variable declaration one
  per declarator whose \<^verbatim>\<open>id\<close> is an identifier, anything else none.
\<close>

fun isIdentifierDeclarator :: "declarator \<Rightarrow> bool" where
  "isIdentifierDeclarator (VariableDeclarator (Identifier n) r) = True"
| "isIdentifierDeclarator (VariableDeclarator OtherPattern r) = False"

fun declaratorName :: "declarator \<Rightarrow> string" where
  "declaratorName (VariableDeclarator (Identifier n) r) = n"
| "declaratorName (VariableDeclarator OtherPattern r) = []"

fun declaratorRange :: "declarator \<Rightarrow> int \<times> int" where
  "declaratorRange (VariableDeclarator p r) = r"

fun spec_definitions :: "statement \<Rightarrow> info list" where
  "spec_definitions (FunctionDeclaration n r) = [\<lparr>name = n, irange = r\<rparr>]"
| "spec_definitions (VariableDeclaration ds) =
     map (\<lambda>d. \<lparr>name = declaratorName d, irange = declaratorRange d\<rparr>)
         (filter isIdentifierDeclarator ds)"
| "spec_definitions (ExpressionStatement e) = []"
| "spec_definitions OtherStatement = []"

fun isInitializer :: "statement \<Rightarrow> bool" where
  "isInitializer (ExpressionStatement (CallExpression (FunctionExpression b))) = True"
| "isInitializer _ = False"

subsection \<open>Sizes and positions\<close>

definition rangeSize :: "int \<times> int \<Rightarrow> int" where
  "rangeSize r = snd r - fst r"

text \<open>\<^verbatim>\<open>s.slice(0, e)\<close>: a negative end counts from the end of the string.\<close>

definition slice0 :: "string \<Rightarrow> int \<Rightarrow> string" where
  "slice0 s e =
     (let len = int (length s);
          to = (if e < 0 then max (len + e) 0 else min e len)
      in take (nat to) s)"

text \<open>\<^verbatim>\<open>s.split('\n')\<close>: never empty, the empty string gives one empty line.\<close>

fun split_nl :: "string \<Rightarrow> string list" where
  "split_nl [] = [ [] ]"
| "split_nl (c # cs) =
     (if c = CHR 0x0A then [] # split_nl cs
      else (case split_nl cs of [] \<Rightarrow> [ [c] ] | l # ls \<Rightarrow> (c # l) # ls))"

definition indexToLineColumn :: "string \<Rightarrow> int \<Rightarrow> bool \<Rightarrow> nat \<times> nat" where
  "indexToLineColumn code index right =
     (let index' = (if right then index - 1 else index);
          beforeSlice = slice0 code index';
          splat = split_nl beforeSlice
      in (length splat, length (last splat)))"

subsection \<open>The position translator and its cache\<close>

text \<open>
  The consumer: \<^verbatim>\<open>generatedPositionFor\<close> takes a 1-based line and a 0-based column of
  the unminified text and answers a generated line and column, or nothing (the object
  with \<^verbatim>\<open>null\<close> fields); \<^verbatim>\<open>originalPositionFor\<close> is read for the diagnostic only.
\<close>

record consumer =
  generatedPositionFor :: "nat \<Rightarrow> nat \<Rightarrow> (nat \<times> nat) option"
  originalPositionFor :: "(nat \<times> nat) option \<Rightarrow> (nat \<times> nat) option"

record env =
  code :: string
  compressedSplat :: "string list"
  consumerOf :: "consumer option"

type_synonym cache = "int \<rightharpoonup> jsnum"

text \<open>
  The loop adding the lengths of the generated lines before the mapped one. Reading a
  line that the minified text does not have gives \<^verbatim>\<open>undefined\<close>, whose \<^verbatim>\<open>length\<close> throws.
\<close>

function offsetLoop :: "string list \<Rightarrow> nat \<Rightarrow> nat \<Rightarrow> int \<Rightarrow> error + int" where
  "offsetLoop splat mline lineNumber result =
     (if lineNumber < mline then
        (if lineNumber - 1 < length splat
         then offsetLoop splat mline (Suc lineNumber)
                (result + int (length (splat ! (lineNumber - 1))) + 1)
         else Inl TypeError)
      else Inr result)"
  by pat_completeness auto
termination
  by (relation "measure (\<lambda>(splat, mline, lineNumber, result). mline - lineNumber)") auto

text \<open>The translation proper: the body of \<^verbatim>\<open>compressIndex\<close> below its cache test.\<close>

definition translate :: "consumer \<Rightarrow> string \<Rightarrow> string list \<Rightarrow> int \<Rightarrow> bool \<Rightarrow> error + jsnum" where
  "translate cons src splat index right =
     (case indexToLineColumn src index right of (line, column) \<Rightarrow>
        (case generatedPositionFor cons line column of
           None \<Rightarrow> Inr JNull
         | Some (mline, mcolumn) \<Rightarrow>
             (case offsetLoop splat mline 1 (int mcolumn) of
                Inl e \<Rightarrow> Inl e
              | Inr result \<Rightarrow> Inr (JNum result))))"

definition compressIndex :: "env \<Rightarrow> cache \<Rightarrow> int \<Rightarrow> bool \<Rightarrow> error + (jsnum \<times> cache)" where
  "compressIndex ev c index right =
     (case consumerOf ev of
        None \<Rightarrow> Inr (JNum index, c)
      | Some cons \<Rightarrow>
          (case c index of
             Some v \<Rightarrow> Inr (v, c)
           | None \<Rightarrow>
               (case translate cons (code ev) (compressedSplat ev) index right of
                  Inl e \<Rightarrow> Inl e
                | Inr result \<Rightarrow> Inr (result, c(index \<mapsto> result)))))"

subsection \<open>The range attributor\<close>

record mapped_entry =
  m_line :: nat
  m_column :: nat
  m_mapped :: "(nat \<times> nat) option"
  m_remapped :: "(nat \<times> nat) option"

record diagnostic =
  d_name :: string
  d_range :: "int \<times> int"
  d_lineColumn :: "(nat \<times> nat) list"
  d_mapped :: "mapped_entry list"
  d_compressed :: "jsnum \<times> jsnum"

text \<open>The state of a run: the cache, and the diagnostics logged so far.\<close>

type_synonym state = "cache \<times> diagnostic list"

definition mappedEntry :: "consumer \<Rightarrow> string \<Rightarrow> int \<Rightarrow> bool \<Rightarrow> mapped_entry" where
  "mappedEntry cons src index right =
     (case indexToLineColumn src index right of (line, column) \<Rightarrow>
        (let generated = generatedPositionFor cons line column
         in \<lparr>m_line = line, m_column = column, m_mapped = generated,
             m_remapped = originalPositionFor cons generated\<rparr>))"

definition diagnosticOf :: "consumer \<Rightarrow> string \<Rightarrow> info \<Rightarrow> jsnum \<times> jsnum \<Rightarrow> diagnostic" where
  "diagnosticOf cons src i result =
     \<lparr>d_name = name i, d_range = irange i,
      d_lineColumn = [indexToLineColumn src (fst (irange i)) False,
                      indexToLineColumn src (snd (irange i)) True],
      d_mapped = [mappedEntry cons src (fst (irange i)) False,
                  mappedEntry cons src (snd (irange i)) True],
      d_compressed = result\<rparr>"

definition compressRange :: "env \<Rightarrow> info \<Rightarrow> state \<Rightarrow> error + ((jsnum \<times> jsnum) option \<times> state)" where
  "compressRange ev i st =
     (case st of (c, lg) \<Rightarrow>
       (case compressIndex ev c (fst (irange i)) False of
          Inl e \<Rightarrow> Inl e
        | Inr (r0, c1) \<Rightarrow>
           (case compressIndex ev c1 (snd (irange i)) True of
              Inl e \<Rightarrow> Inl e
            | Inr (r1, c2) \<Rightarrow>
               if rangeSize (toNumber r0, toNumber r1) < 0 then
                 (if fst (indexToLineColumn (code ev) (fst (irange i)) False)
                     = fst (indexToLineColumn (code ev) (snd (irange i)) True)
                  then Inr (None, (c2, lg))
                  else (case consumerOf ev of
                          None \<Rightarrow> Inl TypeError
                        | Some cons \<Rightarrow>
                            Inr (None, (c2, lg @ [diagnosticOf cons (code ev) i (r0, r1)]))))
               else Inr (Some (r0, r1), (c2, lg)))))"

subsection \<open>Filtering, sorting and reporting\<close>

text \<open>\<^verbatim>\<open>s.indexOf(ch)\<close> for a one-character needle.\<close>

fun indexOf :: "string \<Rightarrow> char \<Rightarrow> int" where
  "indexOf [] ch = - 1"
| "indexOf (c # cs) ch =
     (if c = ch then 0 else (let r = indexOf cs ch in if r < 0 then - 1 else r + 1))"

text \<open>The filter calls \<^verbatim>\<open>compressRange\<close> on every definition, in extraction order.\<close>

fun filter_infos :: "env \<Rightarrow> info list \<Rightarrow> state \<Rightarrow> error + (info list \<times> state)" where
  "filter_infos ev [] st = Inr ([], st)"
| "filter_infos ev (i # is) st =
     (case compressRange ev i st of
        Inl e \<Rightarrow> Inl e
      | Inr (r, st1) \<Rightarrow>
          (case filter_infos ev is st1 of
             Inl e \<Rightarrow> Inl e
           | Inr (kept, st2) \<Rightarrow>
               Inr (if 0 \<le> indexOf (name i) CHR ''$'' \<and> r \<noteq> None then i # kept else kept, st2)))"

text \<open>\<^verbatim>\<open>rangeSize(compressRange(item))\<close>: destructuring \<^verbatim>\<open>null\<close> throws.\<close>

definition sizeOf :: "env \<Rightarrow> info \<Rightarrow> state \<Rightarrow> error + (int \<times> state)" where
  "sizeOf ev i st =
     (case compressRange ev i st of
        Inl e \<Rightarrow> Inl e
      | Inr (None, st1) \<Rightarrow> Inl TypeError
      | Inr (Some r, st1) \<Rightarrow> Inr (rangeSize (toNumber (fst r), toNumber (snd r)), st1))"

definition comparator :: "env \<Rightarrow> info \<Rightarrow> info \<Rightarrow> state \<Rightarrow> error + (int \<times> state)" where
  "comparator ev a b st =
     (case compressRange ev a st of
        Inl e \<Rightarrow> Inl e
      | Inr (ra, st1) \<Rightarrow>
          (case compressRange ev b st1 of
             Inl e \<Rightarrow> Inl e
           | Inr (rb, st2) \<Rightarrow>
               (case rb of
                  None \<Rightarrow> Inl TypeError
                | Some y \<Rightarrow>
                    (case ra of
                       None \<Rightarrow> Inl TypeError
                     | Some x \<Rightarrow>
                         Inr (rangeSize (toNumber (fst y), toNumber (snd y))
                                - rangeSize (toNumber (fst x), toNumber (snd x)), st2)))))"

text \<open>
  \<^verbatim>\<open>Array.prototype.sort\<close> is a stable sort; it is modelled as the insertion sort that
  puts an element before the first one it does not compare greater than, calling the
  comparator through the state of the run.
\<close>

fun insert_info :: "env \<Rightarrow> info \<Rightarrow> info list \<Rightarrow> state \<Rightarrow> error + (info list \<times> state)" where
  "insert_info ev x [] st = Inr ([x], st)"
| "insert_info ev x (y # ys) st =
     (case comparator ev x y st of
        Inl e \<Rightarrow> Inl e
      | Inr (d, st1) \<Rightarrow>
          if d \<le> 0 then Inr (x # y # ys, st1)
          else (case insert_info ev x ys st1 of
                  Inl e \<Rightarrow> Inl e
                | Inr (zs, st2) \<Rightarrow> Inr (y # zs, st2)))"

fun sort_infos :: "env \<Rightarrow> info list \<Rightarrow> state \<Rightarrow> error + (info list \<times> state)" where
  "sort_infos ev [] st = Inr ([], st)"
| "sort_infos ev (x # xs) st =
     (case sort_infos ev xs st of
        Inl e \<Rightarrow> Inl e
      | Inr (ys, st1) \<Rightarrow> insert_info ev x ys st1)"

text \<open>The \<^verbatim>\<open>forEach\<close> that prints the entries, and the \<^verbatim>\<open>map\<close> under the sum.\<close>

fun sizes :: "env \<Rightarrow> info list \<Rightarrow> state \<Rightarrow> error + (int list \<times> state)" where
  "sizes ev [] st = Inr ([], st)"
| "sizes ev (i # is) st =
     (case sizeOf ev i st of
        Inl e \<Rightarrow> Inl e
      | Inr (rs, st1) \<Rightarrow>
          (case sizes ev is st1 of
             Inl e \<Rightarrow> Inl e
           | Inr (rss, st2) \<Rightarrow> Inr (rs # rss, st2)))"

record report =
  diagnostics :: "diagnostic list"
  entries :: "(info \<times> int) list"
  rangeSum :: int
  compressedSize :: int

definition process ::
  "(string \<Rightarrow> error + program) \<Rightarrow> string \<Rightarrow> string option \<Rightarrow> consumer option \<Rightarrow> error + report" where
  "process parseScript src compressedCode cons =
     (case cons of
        None \<Rightarrow> Inl TypeError
      | Some cns \<Rightarrow>
         (case parseScript src of
            Inl e \<Rightarrow> Inl e
          | Inr parsed \<Rightarrow>
             (let compressedCode' =
                    (case compressedCode of None \<Rightarrow> src
                     | Some cc \<Rightarrow> if cc = [] then src else cc)
              in (case parseScript compressedCode' of
                    Inl e \<Rightarrow> Inl e
                  | Inr parsedCompressed \<Rightarrow>
                     (let ev = \<lparr>code = src, compressedSplat = split_nl compressedCode',
                                consumerOf = cons\<rparr>
                      in (case filter_infos ev (yieldElmJsDefinitionInfos parsed) (Map.empty, []) of
                            Inl e \<Rightarrow> Inl e
                          | Inr (infos1, st1) \<Rightarrow>
                             (case sort_infos ev infos1 st1 of
                                Inl e \<Rightarrow> Inl e
                              | Inr (infos2, st2) \<Rightarrow>
                                 (case sizes ev infos2 st2 of
                                    Inl e \<Rightarrow> Inl e
                                  | Inr (rs, st3) \<Rightarrow>
                                     (case sizes ev infos2 st3 of
                                        Inl e \<Rightarrow> Inl e
                                      | Inr (rs', st4) \<Rightarrow>
                                          Inr \<lparr>diagnostics = snd st4,
                                               entries = zip infos2 rs,
                                               rangeSum = sum_list rs',
                                               compressedSize = rangeSize (prange parsedCompressed)\<rparr>)))))))))"

text \<open>
  \<^verbatim>\<open>withTerser\<close> and \<^verbatim>\<open>analyse\<close>. The minifier with the consumer built from its map is a
  parameter; it answers the minified text (empty when terser gave none) and the consumer.
\<close>

definition withTerser ::
  "(string \<Rightarrow> error + (string \<times> consumer)) \<Rightarrow> string \<Rightarrow> (string \<Rightarrow> consumer \<Rightarrow> error + 'a) \<Rightarrow> error + 'a" where
  "withTerser minify source callback =
     (case minify source of
        Inl e \<Rightarrow> Inl e
      | Inr (minified, cons) \<Rightarrow>
          if minified \<noteq> [] then callback minified cons else Inl TerserFailed)"

definition analyse ::
  "(string \<Rightarrow> error + program) \<Rightarrow> (string \<Rightarrow> error + (string \<times> consumer)) \<Rightarrow> string \<Rightarrow> bool \<Rightarrow> error + report" where
  "analyse parseScript minify src terser =
     (if terser
      then withTerser minify src
             (\<lambda>compressedCode cons. process parseScript src (Some compressedCode) (Some cons))
      else process parseScript src None None)"

subsection \<open>What the cache holds for a definition\<close>

text \<open>
  Once both endpoints of a definition are in the cache, every later call of
  \<^verbatim>\<open>compressRange\<close> on it reads them back: \<open>retained\<close> says that they are there with a
  size that is not negative, \<open>cachedSize\<close> is that size.
\<close>

definition retained :: "cache \<Rightarrow> info \<Rightarrow> bool" where
  "retained c i =
     (case c (fst (irange i)) of
        None \<Rightarrow> False
      | Some r0 \<Rightarrow>
          (case c (snd (irange i)) of
             None \<Rightarrow> False
           | Some r1 \<Rightarrow> 0 \<le> rangeSize (toNumber r0, toNumber r1)))"

definition cachedSize :: "cache \<Rightarrow> info \<Rightarrow> int" where
  "cachedSize c i =
     (case c (fst (irange i)) of
        None \<Rightarrow> 0
      | Some r0 \<Rightarrow>
          (case c (snd (irange i)) of
             None \<Rightarrow> 0
           | Some r1 \<Rightarrow> rangeSize (toNumber r0, toNumber r1)))"

subsection \<open>Concrete runs\<close>

text \<open>The identity table: every position maps to itself.\<close>

definition identityConsumer :: consumer where
  "identityConsumer = \<lparr>generatedPositionFor = (\<lambda>line column. Some (line, column)),
                        originalPositionFor = (\<lambda>p. p)\<rparr>"

text \<open>
  Run A: four declarators on one line, the third without \<^verbatim>\<open>$\<close>, the minified text equal
  to the unminified one, the identity table.
\<close>

definition exA_code :: string where
  "exA_code = ''(function(){var $a=1,$b=2,c=5,$c=33})()''"

definition exA_program :: program where
  "exA_program =
     \<lparr>body = [ExpressionStatement (CallExpression (FunctionExpression
                [VariableDeclaration
                   [VariableDeclarator (Identifier ''$a'') (16, 20),
                    VariableDeclarator (Identifier ''$b'') (21, 25),
                    VariableDeclarator (Identifier ''c'') (26, 29),
                    VariableDeclarator (Identifier ''$c'') (30, 35)]]))],
      prange = (0, 39)\<rparr>"

definition exA_parse :: "string \<Rightarrow> error + program" where
  "exA_parse s = (if s = exA_code then Inr exA_program else Inl SyntaxError)"

definition exA_report :: report where
  "exA_report =
     \<lparr>diagnostics = [],
      entries = [(\<lparr>name = ''$c'', irange = (30, 35)\<rparr>, 4),
                 (\<lparr>name = ''$a'', irange = (16, 20)\<rparr>, 3),
                 (\<lparr>name = ''$b'', irange = (21, 25)\<rparr>, 3)],
      rangeSum = 10, compressedSize = 39\<rparr>"

text \<open>
  Run B: two declarators, a minified text of four characters, and a table that sends
  both declarators to the one generated span.
\<close>

definition exB_code :: string where
  "exB_code = ''(function(){var $a=1,$b=1})()''"

definition exB_program :: program where
  "exB_program =
     \<lparr>body = [ExpressionStatement (CallExpression (FunctionExpression
                [VariableDeclaration
                   [VariableDeclarator (Identifier ''$a'') (16, 20),
                    VariableDeclarator (Identifier ''$b'') (21, 25)]]))],
      prange = (0, 29)\<rparr>"

definition exB_minified :: string where
  "exB_minified = ''$a=1''"

definition exB_parse :: "string \<Rightarrow> error + program" where
  "exB_parse s =
     (if s = exB_code then Inr exB_program
      else if s = exB_minified
        then Inr \<lparr>body = [ExpressionStatement OtherExpression], prange = (0, 4)\<rparr>
      else Inl SyntaxError)"



text \<open>
  Run C: the text and the minified text of run B, with a table that maps only the last
  character of the second declarator.
\<close>

definition exC_consumer :: consumer where
  "exC_consumer =
     \<lparr>generatedPositionFor =
        (\<lambda>line column. if line = 1 \<and> column = 24 then Some (1, 3) else None),
      originalPositionFor = (\<lambda>p. None)\<rparr>"

definition exC_env :: env where
  "exC_env = \<lparr>code = exB_code, compressedSplat = split_nl exB_minified,
              consumerOf = Some exC_consumer\<rparr>"

definition exC_report :: report where
  "exC_report =
     \<lparr>diagnostics = [],
      entries = [(\<lparr>name = ''$b'', irange = (21, 25)\<rparr>, 3),
                 (\<lparr>name = ''$a'', irange = (16, 20)\<rparr>, 0)],
      rangeSum = 3, compressedSize = 4\<rparr>"

text \<open>
  Run D: the text of run B, a minified text of two lines, and a table that sends the
  start of the second declarator to the second generated line and its last character to
  the first.
\<close>

definition exD_minified :: string where
  "exD_minified = ''$a=1'' @ [CHR 0x0A] @ ''$b=1''"

definition exD_parse :: "string \<Rightarrow> error + program" where
  "exD_parse s =
     (if s = exB_code then Inr exB_program
      else if s = exD_minified
        then Inr \<lparr>body = [ExpressionStatement OtherExpression,
                           ExpressionStatement OtherExpression], prange = (0, 9)\<rparr>
      else Inl SyntaxError)"

definition exD_consumer :: consumer where
  "exD_consumer =
     \<lparr>generatedPositionFor =
        (\<lambda>line column.
           if line = 1 \<and> column = 16 then Some (1, 0)
           else if line = 1 \<and> column = 19 then Some (1, 3)
           else if line = 1 \<and> column = 21 then Some (2, 0)
           else if line = 1 \<and> column = 24 then Some (1, 3)
           else None),
      originalPositionFor = (\<lambda>p. None)\<rparr>"

definition exD_env :: env where
  "exD_env = \<lparr>code = exB_code, compressedSplat = split_nl exD_minified,
              consumerOf = Some exD_consumer\<rparr>"

definition exD_report :: report where
  "exD_report =
     \<lparr>diagnostics = [],
      entries = [(\<lparr>name = ''$a'', irange = (16, 20)\<rparr>, 3)],
      rangeSum = 3, compressedSize = 9\<rparr>"

text \<open>Run E: two function declarations with nothing between them, the identity table.\<close>

definition exE_code :: string where
  "exE_code = ''(function(){function $f(){}function $g(){}})()''"

definition exE_program :: program where
  "exE_program =
     \<lparr>body = [ExpressionStatement (CallExpression (FunctionExpression
                [FunctionDeclaration ''$f'' (12, 27),
                 FunctionDeclaration ''$g'' (27, 42)]))],
      prange = (0, 46)\<rparr>"

definition exE_parse :: "string \<Rightarrow> error + program" where
  "exE_parse s = (if s = exE_code then Inr exE_program else Inl SyntaxError)"

definition exE_env :: env where
  "exE_env = \<lparr>code = exE_code, compressedSplat = split_nl exE_code,
              consumerOf = Some identityConsumer\<rparr>"

definition exE_report :: report where
  "exE_report =
     \<lparr>diagnostics = [],
      entries = [(\<lparr>name = ''$g'', irange = (27, 42)\<rparr>, 15),
                 (\<lparr>name = ''$f'', irange = (12, 27)\<rparr>, 14)],
      rangeSum = 29, compressedSize = 46\<rparr>"

text \<open>
  Run F: the function \<^verbatim>\<open>greet\<close>, 19 characters long, as the one statement of an
  enclosing initializer, where it takes the range from 12 to 31; the identity table.
\<close>

definition exF_code :: string where
  "exF_code = ''(function(){function greet(){ }})()''"

definition exF_program :: program where
  "exF_program =
     \<lparr>body = [ExpressionStatement (CallExpression (FunctionExpression
                [FunctionDeclaration ''greet'' (12, 31)]))],
      prange = (0, 35)\<rparr>"

definition exF_parse :: "string \<Rightarrow> error + program" where
  "exF_parse s = (if s = exF_code then Inr exF_program else Inl SyntaxError)"

definition exF_env :: env where
  "exF_env = \<lparr>code = exF_code, compressedSplat = split_nl exF_code,
              consumerOf = Some identityConsumer\<rparr>"

text \<open>
  Run H: the same declaration alone in the text, at the range from 0 to 19. It is a
  top-level statement there and no initializer encloses it.
\<close>

definition exH_code :: string where
  "exH_code = ''function greet(){ }''"

definition exH_program :: program where
  "exH_program = \<lparr>body = [FunctionDeclaration ''greet'' (0, 19)], prange = (0, 19)\<rparr>"

definition exH_parse :: "string \<Rightarrow> error + program" where
  "exH_parse s = (if s = exH_code then Inr exH_program else Inl SyntaxError)"

text \<open>
  Run I: the text of run E with a table that sends the last character of \<^verbatim>\<open>$f\<close> behind
  the first character of \<^verbatim>\<open>$g\<close>.
\<close>

definition exI_consumer :: consumer where
  "exI_consumer =
     \<lparr>generatedPositionFor =
        (\<lambda>line column.
           if line = 1 \<and> column = 26 then Some (1, 10)
           else if line = 1 \<and> column = 27 then Some (1, 5)
           else None),
      originalPositionFor = (\<lambda>p. None)\<rparr>"

definition exI_env :: env where
  "exI_env = \<lparr>code = exE_code, compressedSplat = split_nl exE_code,
              consumerOf = Some exI_consumer\<rparr>"

text \<open>
  Runs J and K: the text of run E with two tables that keep the order of positions. The
  first answers for the last character of \<^verbatim>\<open>$f\<close> a column far behind the end of its
  line of a minified text of two short lines; the second cannot map the first character
  of \<^verbatim>\<open>$g\<close>.
\<close>

definition exJ_consumer :: consumer where
  "exJ_consumer =
     \<lparr>generatedPositionFor =
        (\<lambda>line column.
           if line = 1 \<and> column = 26 then Some (1, 100)
           else if line = 1 \<and> column = 27 then Some (2, 0)
           else None),
      originalPositionFor = (\<lambda>p. None)\<rparr>"

definition exJ_splat :: "string list" where
  "exJ_splat = split_nl (''ab'' @ [CHR 0x0A] @ ''cd'')"

definition exK_consumer :: consumer where
  "exK_consumer =
     \<lparr>generatedPositionFor =
        (\<lambda>line column. if line = 1 \<and> column = 26 then Some (1, 3) else None),
      originalPositionFor = (\<lambda>p. None)\<rparr>"

text \<open>
  Run G: a function declaration that spans two lines of the unminified text, with a
  table that sends its last character before its start.
\<close>

definition exG_code :: string where
  "exG_code = ''(function(){function $f(){'' @ [CHR 0x0A] @ ''}})()''"

definition exG_consumer :: consumer where
  "exG_consumer =
     \<lparr>generatedPositionFor =
        (\<lambda>line column.
           if line = 1 \<and> column = 12 then Some (1, 5)
           else if line = 2 \<and> column = 0 then Some (1, 2)
           else None),
      originalPositionFor = (\<lambda>p. None)\<rparr>"

definition exG_env :: env where
  "exG_env = \<lparr>code = exG_code, compressedSplat = [''!function $f(){}()''],
              consumerOf = Some exG_consumer\<rparr>"

subsection \<open>Positions that the table cannot map\<close>

definition unmapped :: "consumer \<Rightarrow> string \<Rightarrow> int \<Rightarrow> bool \<Rightarrow> bool" where
  "unmapped cons src index right =
     (case indexToLineColumn src index right of
        (line, column) \<Rightarrow> generatedPositionFor cons line column = None)"

subsection \<open>Order of positions\<close>

text \<open>
  Positions in the order of the text, a table that keeps that order, and a generated
  position that lies on a line of the minified text, within or right after it.
\<close>

definition posLe :: "nat \<times> nat \<Rightarrow> nat \<times> nat \<Rightarrow> bool" where
  "posLe p q \<longleftrightarrow> fst p < fst q \<or> (fst p = fst q \<and> snd p \<le> snd q)"

definition monotoneTable :: "consumer \<Rightarrow> bool" where
  "monotoneTable cons \<longleftrightarrow>
     (\<forall>l c l' c' p q. posLe (l, c) (l', c') \<longrightarrow>
        generatedPositionFor cons l c = Some p \<longrightarrow>
        generatedPositionFor cons l' c' = Some q \<longrightarrow> posLe p q)"

definition withinText :: "string list \<Rightarrow> nat \<times> nat \<Rightarrow> bool" where
  "withinText splat p \<longleftrightarrow>
     1 \<le> fst p \<and> fst p \<le> length splat \<and> snd p \<le> length (splat ! (fst p - 1))"

subsection \<open>A definition within a run\<close>

text \<open>
  The offsets that the definitions of a list ask for, a table that answers only lines of
  the minified text, and the environment of a run of \<open>process\<close> on a minified text
  that is not empty.
\<close>

definition endpointsOf :: "info list \<Rightarrow> int list" where
  "endpointsOf js = concat (map (\<lambda>j. [fst (irange j), snd (irange j)]) js)"

definition tableWithin :: "consumer \<Rightarrow> string list \<Rightarrow> bool" where
  "tableWithin cons splat \<longleftrightarrow>
     (\<forall>line column mline mcolumn.
        generatedPositionFor cons line column = Some (mline, mcolumn) \<longrightarrow> mline \<le> length splat)"

definition runEnv :: "string \<Rightarrow> string \<Rightarrow> consumer \<Rightarrow> env" where
  "runEnv src minified cons =
     \<lparr>code = src, compressedSplat = split_nl minified, consumerOf = Some cons\<rparr>"

declare offsetLoop.simps [simp del]

section \<open>The extractor yields the definitions of the enclosing initializer\<close>

lemma declarationInfo_spec:
  "concat (map declarationInfo ds) =
     map (\<lambda>d. \<lparr>name = declaratorName d, irange = declaratorRange d\<rparr>)
         (filter isIdentifierDeclarator ds)"
proof (induction ds)
  case Nil
  show ?case by simp
next
  case (Cons d ds)
  then show ?case by (cases d rule: declarationInfo.cases) simp_all
qed

lemma statement_infos_spec:
  "yieldFunctionDeclarationInfo s @ yieldVariableDeclarationInfos s = spec_definitions s"
  by (cases s) (simp_all add: declarationInfo_spec)

lemma initializerBody_not: "\<not> isInitializer s \<Longrightarrow> initializerBody s = []"
  by (cases s rule: isInitializer.cases) simp_all

lemma no_initializer_statements:
  "\<forall>s \<in> set ss. \<not> isInitializer s \<Longrightarrow> concat (map initializerBody ss) = []"
  by (induction ss) (simp_all add: initializerBody_not)

text \<open>
  Claim C9. The extractor reads the direct statements of the enclosing initializer (a
  top-level expression statement calling a function literal) and yields, in order, one
  definition for each function declaration (its name, the range of the statement), one
  for each declarator of a variable declaration whose target is an identifier (its name,
  the range of the declarator; a destructuring declarator gives none), nothing for any
  other statement; with no enclosing initializer at top level it yields nothing.
\<close>

theorem extractor_contract:
  "((\<forall>s \<in> set (body script). \<not> isInitializer s) \<longrightarrow> yieldElmJsDefinitionInfos script = [])
   \<and> (\<forall>pre b post.
         body script = pre @ [ExpressionStatement (CallExpression (FunctionExpression b))] @ post
         \<and> (\<forall>s \<in> set pre. \<not> isInitializer s) \<and> (\<forall>s \<in> set post. \<not> isInitializer s)
         \<longrightarrow> yieldElmJsDefinitionInfos script = concat (map spec_definitions b))"
proof (intro conjI allI impI)
  assume "\<forall>s \<in> set (body script). \<not> isInitializer s"
  then show "yieldElmJsDefinitionInfos script = []"
    by (simp add: yieldElmJsDefinitionInfos_def yieldElmJsStatements_def
        no_initializer_statements)
next
  fix pre b post
  assume h: "body script = pre @ [ExpressionStatement (CallExpression (FunctionExpression b))] @ post
      \<and> (\<forall>s \<in> set pre. \<not> isInitializer s) \<and> (\<forall>s \<in> set post. \<not> isInitializer s)"
  then have "yieldElmJsStatements script = b"
    by (simp add: yieldElmJsStatements_def no_initializer_statements)
  then show "yieldElmJsDefinitionInfos script = concat (map spec_definitions b)"
    by (simp add: yieldElmJsDefinitionInfos_def statement_infos_spec)
qed

theorem extractor_contract_witness:
  "yieldElmJsDefinitionInfos
     \<lparr>body = [OtherStatement,
              ExpressionStatement (CallExpression (FunctionExpression
                [FunctionDeclaration ''f'' (12, 27),
                 VariableDeclaration [VariableDeclarator (Identifier ''a'') (31, 34),
                                      VariableDeclarator OtherPattern (35, 40)],
                 OtherStatement])),
              ExpressionStatement OtherExpression],
      prange = (0, 50)\<rparr>
     = [\<lparr>name = ''f'', irange = (12, 27)\<rparr>, \<lparr>name = ''a'', irange = (31, 34)\<rparr>]
   \<and> yieldElmJsDefinitionInfos \<lparr>body = [OtherStatement], prange = (0, 1)\<rparr> = []"
proof -
  let ?b = "[FunctionDeclaration ''f'' (12, 27),
             VariableDeclaration [VariableDeclarator (Identifier ''a'') (31, 34),
                                  VariableDeclarator OtherPattern (35, 40)],
             OtherStatement]"
  let ?script = "\<lparr>body = [OtherStatement,
                          ExpressionStatement (CallExpression (FunctionExpression ?b)),
                          ExpressionStatement OtherExpression],
                  prange = (0, 50)\<rparr>"
  have "body ?script = [OtherStatement]
          @ [ExpressionStatement (CallExpression (FunctionExpression ?b))]
          @ [ExpressionStatement OtherExpression]
        \<and> (\<forall>s \<in> set [OtherStatement]. \<not> isInitializer s)
        \<and> (\<forall>s \<in> set [ExpressionStatement OtherExpression]. \<not> isInitializer s)"
    by simp
  with extractor_contract [of ?script]
  have one: "yieldElmJsDefinitionInfos ?script = concat (map spec_definitions ?b)"
    by blast
  have "\<forall>s \<in> set (body \<lparr>body = [OtherStatement], prange = (0, 1)\<rparr>). \<not> isInitializer s"
    by simp
  with extractor_contract [of "\<lparr>body = [OtherStatement], prange = (0, 1)\<rparr>"]
  have two: "yieldElmJsDefinitionInfos \<lparr>body = [OtherStatement], prange = (0, 1)\<rparr> = []"
    by blast
  from one two show ?thesis by simp
qed

section \<open>A run without a minified artifact\<close>

text \<open>
  Claim C5. With \<^verbatim>\<open>options.terser\<close> false, \<^verbatim>\<open>analyse\<close> calls \<^verbatim>\<open>process(code)\<close>, whose
  consumer is \<^verbatim>\<open>null\<close>; the first statement after the log line,
  \<^verbatim>\<open>consumer.computeColumnSpans()\<close>, throws a TypeError before anything is parsed.
  The theorem evaluates the run: it ends in that error for every text.
\<close>

theorem analyse_without_terser_throws:
  "analyse parseScript minify src False = Inl TypeError"
  by (simp add: analyse_def process_def)

section \<open>The cache fixes every translated endpoint\<close>

lemma compressIndex_hit:
  "consumerOf ev = Some cons \<Longrightarrow> c k = Some v \<Longrightarrow> compressIndex ev c k b = Inr (v, c)"
  by (simp add: compressIndex_def)

lemma compressIndex_Inr:
  assumes "consumerOf ev = Some cons" and "compressIndex ev c k b = Inr (v, c')"
  shows "c' k = Some v \<and> c \<subseteq>\<^sub>m c'"
proof (cases "c k")
  case None
  with assms show ?thesis
    by (auto simp: compressIndex_def map_le_def split: sum.splits)
next
  case (Some w)
  with assms show ?thesis
    by (auto simp: compressIndex_def)
qed

lemma map_le_Some: "c \<subseteq>\<^sub>m c' \<Longrightarrow> c k = Some v \<Longrightarrow> c' k = Some v"
  by (metis domI map_le_def)

lemma retained_mono:
  assumes "retained c i" and "c \<subseteq>\<^sub>m c'"
  shows "retained c' i \<and> cachedSize c' i = cachedSize c i"
proof -
  from assms(1) obtain r0 r1 where
    r0: "c (fst (irange i)) = Some r0" and r1: "c (snd (irange i)) = Some r1"
    and nn: "0 \<le> rangeSize (toNumber r0, toNumber r1)"
    by (auto simp: retained_def split: option.splits)
  from map_le_Some [OF assms(2) r0] map_le_Some [OF assms(2) r1] r0 r1 nn
  show ?thesis by (simp add: retained_def cachedSize_def)
qed

lemma compressRange_cached:
  assumes "consumerOf ev = Some cons" and "retained c i"
  shows "\<exists>r. compressRange ev i (c, lg) = Inr (Some r, (c, lg))
             \<and> rangeSize (toNumber (fst r), toNumber (snd r)) = cachedSize c i"
proof -
  from assms(2) obtain r0 r1 where
    r0: "c (fst (irange i)) = Some r0" and r1: "c (snd (irange i)) = Some r1"
    and nn: "0 \<le> rangeSize (toNumber r0, toNumber r1)"
    by (auto simp: retained_def split: option.splits)
  have "compressRange ev i (c, lg) = Inr (Some (r0, r1), (c, lg))"
    using nn by (simp add: compressRange_def compressIndex_hit [where c = c, OF assms(1) r0]
        compressIndex_hit [where c = c, OF assms(1) r1])
  moreover have "rangeSize (toNumber r0, toNumber r1) = cachedSize c i"
    by (simp add: cachedSize_def r0 r1)
  ultimately show ?thesis by simp
qed

lemma sizeOf_cached:
  assumes "consumerOf ev = Some cons" and "retained c i"
  shows "sizeOf ev i (c, lg) = Inr (cachedSize c i, (c, lg))"
  using compressRange_cached [OF assms, of lg] by (auto simp: sizeOf_def)

lemma comparator_cached:
  assumes "consumerOf ev = Some cons" and "retained c a" and "retained c b"
  shows "comparator ev a b (c, lg) = Inr (cachedSize c b - cachedSize c a, (c, lg))"
  using compressRange_cached [OF assms(1,2), of lg] compressRange_cached [OF assms(1,3), of lg]
  by (auto simp: comparator_def)

lemma insert_info_cached:
  assumes "consumerOf ev = Some cons" and "retained c x" and "\<forall>i \<in> set ys. retained c i"
  shows "insert_info ev x ys (c, lg) = Inr (insort_key (\<lambda>i. - cachedSize c i) x ys, (c, lg))"
  using assms(3)
proof (induction ys)
  case Nil
  show ?case by simp
next
  case (Cons y ys)
  then show ?case
    by (simp add: comparator_cached [OF assms(1,2)])
qed

lemma sort_infos_cached:
  assumes "consumerOf ev = Some cons" and "\<forall>i \<in> set xs. retained c i"
  shows "sort_infos ev xs (c, lg) = Inr (sort_key (\<lambda>i. - cachedSize c i) xs, (c, lg))"
  using assms(2)
proof (induction xs)
  case Nil
  show ?case by simp
next
  case (Cons x xs)
  then show ?case
    by (simp add: insert_info_cached [OF assms(1)])
qed

lemma sizes_cached:
  assumes "consumerOf ev = Some cons" and "\<forall>i \<in> set xs. retained c i"
  shows "sizes ev xs (c, lg) = Inr (map (cachedSize c) xs, (c, lg))"
  using assms(2)
  by (induction xs) (simp_all add: sizeOf_cached [OF assms(1)])

lemma compressRange_Inr:
  assumes "consumerOf ev = Some cons" and "compressRange ev i (c, lg) = Inr (r, (c', lg'))"
  shows "c \<subseteq>\<^sub>m c' \<and> (r \<noteq> None \<longrightarrow> retained c' i)"
proof -
  from assms(2) obtain r0 c1 r1 where
    a: "compressIndex ev c (fst (irange i)) False = Inr (r0, c1)" and
    b: "compressIndex ev c1 (snd (irange i)) True = Inr (r1, c')" and
    r: "r \<noteq> None \<longrightarrow> 0 \<le> rangeSize (toNumber r0, toNumber r1)"
    by (auto simp: compressRange_def assms(1) split: sum.splits if_splits)
  from compressIndex_Inr [OF assms(1) a] have a': "c1 (fst (irange i)) = Some r0" "c \<subseteq>\<^sub>m c1"
    by simp_all
  from compressIndex_Inr [OF assms(1) b] have b': "c' (snd (irange i)) = Some r1" "c1 \<subseteq>\<^sub>m c'"
    by simp_all
  from a'(1) b'(2) have "c' (fst (irange i)) = Some r0"
    by (simp add: map_le_Some)
  with b'(1) r have "r \<noteq> None \<longrightarrow> retained c' i"
    by (simp add: retained_def)
  moreover from a'(2) b'(2) have "c \<subseteq>\<^sub>m c'" by (rule map_le_trans)
  ultimately show ?thesis by simp
qed

lemma indexOf_nonneg: "0 \<le> indexOf s ch \<longleftrightarrow> ch \<in> set s"
  by (induction s) (auto simp: Let_def)

lemma filter_infos_Inr:
  assumes "consumerOf ev = Some cons"
  shows "filter_infos ev is (c, lg) = Inr (kept, (c', lg')) \<Longrightarrow>
         c \<subseteq>\<^sub>m c' \<and> subseq kept is
         \<and> (\<forall>i \<in> set kept. retained c' i \<and> CHR ''$'' \<in> set (name i))"
proof (induction "is" arbitrary: c lg kept c' lg')
  case Nil
  then show ?case by simp
next
  case (Cons i "is")
  from Cons.prems obtain r c1 lg1 kept1 where
    cr: "compressRange ev i (c, lg) = Inr (r, (c1, lg1))" and
    rest: "filter_infos ev is (c1, lg1) = Inr (kept1, (c', lg'))" and
    kept: "kept = (if 0 \<le> indexOf (name i) CHR ''$'' \<and> r \<noteq> None then i # kept1 else kept1)"
    by (auto split: sum.splits)
  from compressRange_Inr [OF assms cr]
  have c1: "c \<subseteq>\<^sub>m c1" and ri: "r \<noteq> None \<longrightarrow> retained c1 i" by simp_all
  from Cons.IH [OF rest]
  have ih: "c1 \<subseteq>\<^sub>m c'" "subseq kept1 is"
    "\<forall>i \<in> set kept1. retained c' i \<and> CHR ''$'' \<in> set (name i)"
    by simp_all
  from c1 ih(1) have le: "c \<subseteq>\<^sub>m c'" by (rule map_le_trans)
  show ?case
  proof (cases "0 \<le> indexOf (name i) CHR ''$'' \<and> r \<noteq> None")
    case True
    with ri have "retained c1 i" by simp
    with ih(1) have "retained c' i" by (simp add: retained_mono)
    with True kept ih le show ?thesis
      by (simp add: indexOf_nonneg)
  next
    case False
    with kept ih le show ?thesis
      by (auto intro: subseq_Cons')
  qed
qed

lemma process_report:
  assumes "process parseScript src compressedCode cons = Inr r"
  shows "\<exists>parsed c kept.
           parseScript src = Inr parsed
           \<and> subseq kept (yieldElmJsDefinitionInfos parsed)
           \<and> (\<forall>i \<in> set kept. retained c i \<and> CHR ''$'' \<in> set (name i))
           \<and> entries r = map (\<lambda>i. (i, cachedSize c i)) (sort_key (\<lambda>i. - cachedSize c i) kept)
           \<and> rangeSum r = sum_list (map (cachedSize c) (sort_key (\<lambda>i. - cachedSize c i) kept))"
proof -
  from assms obtain cns where cons: "cons = Some cns"
    by (cases cons) (simp_all add: process_def)
  from assms cons obtain parsed where parsed: "parseScript src = Inr parsed"
    by (cases "parseScript src") (simp_all add: process_def)
  define cc where "cc = (case compressedCode of None \<Rightarrow> src | Some cc \<Rightarrow> if cc = [] then src else cc)"
  define ev where "ev = \<lparr>code = src, compressedSplat = split_nl cc, consumerOf = Some cns\<rparr>"
  have evc: "consumerOf ev = Some cns" by (simp add: ev_def)
  from assms cons parsed obtain pc where pc: "parseScript cc = Inr pc"
    by (cases "parseScript cc") (simp_all add: process_def cc_def Let_def)
  let ?infos = "yieldElmJsDefinitionInfos parsed"
  from assms pc obtain kept c1 lg1 infos2 st2 rs st3 rs' st4 where
    f: "filter_infos ev ?infos (Map.empty, []) = Inr (kept, (c1, lg1))" and
    s0: "sort_infos ev kept (c1, lg1) = Inr (infos2, st2)" and
    z0: "sizes ev infos2 st2 = Inr (rs, st3)" and
    z1: "sizes ev infos2 st3 = Inr (rs', st4)" and
    r: "r = \<lparr>diagnostics = snd st4, entries = zip infos2 rs, rangeSum = sum_list rs',
              compressedSize = rangeSize (prange pc)\<rparr>"
    unfolding process_def cons parsed cc_def ev_def Let_def
    by (auto split: sum.splits)
  from filter_infos_Inr [OF evc f]
  have k: "subseq kept (yieldElmJsDefinitionInfos parsed)"
    "\<forall>i \<in> set kept. retained c1 i \<and> CHR ''$'' \<in> set (name i)"
    by simp_all
  let ?sorted = "sort_key (\<lambda>i. - cachedSize c1 i) kept"
  from k(2) have all: "\<forall>i \<in> set kept. retained c1 i" by simp
  then have all': "\<forall>i \<in> set ?sorted. retained c1 i" by simp
  have s: "sort_infos ev kept (c1, lg1) = Inr (?sorted, (c1, lg1))"
    by (rule sort_infos_cached [OF evc all])
  have z: "sizes ev ?sorted (c1, lg1) = Inr (map (cachedSize c1) ?sorted, (c1, lg1))"
    by (rule sizes_cached [OF evc all'])
  from s s0 have i2: "infos2 = ?sorted" "st2 = (c1, lg1)" by simp_all
  from z z0 i2 have rs: "rs = map (cachedSize c1) ?sorted" "st3 = (c1, lg1)" by simp_all
  from z z1 i2 rs have rs': "rs' = map (cachedSize c1) ?sorted" by simp
  from r i2 rs rs' have "r = \<lparr>diagnostics = snd st4,
                         entries = zip ?sorted (map (cachedSize c1) ?sorted),
                         rangeSum = sum_list (map (cachedSize c1) ?sorted),
                         compressedSize = rangeSize (prange pc)\<rparr>"
    by simp
  then have "entries r = map (\<lambda>i. (i, cachedSize c1 i)) ?sorted
      \<and> rangeSum r = sum_list (map (cachedSize c1) ?sorted)"
    by (simp add: zip_map2 zip_same_conv_map)
  with parsed k show ?thesis by blast
qed



section \<open>Evaluating concrete runs\<close>

lemmas eval_defs = process_def yieldElmJsDefinitionInfos_def yieldElmJsStatements_def
  compressRange_def compressIndex_def translate_def indexToLineColumn_def slice0_def
  rangeSize_def sizeOf_def comparator_def Let_def offsetLoop.simps

lemma exA_parsed: "exA_parse exA_code = Inr exA_program"
  by (simp add: exA_parse_def)

lemma exA_run:
  "process exA_parse exA_code (Some exA_code) (Some identityConsumer) = Inr exA_report"
  by (simp add: eval_defs exA_parse_def exA_code_def exA_program_def identityConsumer_def
      exA_report_def)

section \<open>The report\<close>

text \<open>
  Claim C7. In every report the sizes of the entries descend (so each entry is at least
  as large as the next), and for every size the entries of that size, in the order of
  the report, are a subsequence of the extracted definitions: equal sizes keep their
  extraction order, no second key is applied.
\<close>

theorem report_sorted_stable:
  assumes "parseScript src = Inr parsed"
    and "process parseScript src compressedCode cons = Inr r"
  shows "sorted_wrt (\<lambda>a b. snd b \<le> snd a) (entries r)
         \<and> (\<forall>k. subseq (map fst (filter (\<lambda>e. snd e = k) (entries r)))
                         (yieldElmJsDefinitionInfos parsed))"
proof -
  from process_report [OF assms(2)] assms(1) obtain c kept where
    sub: "subseq kept (yieldElmJsDefinitionInfos parsed)" and
    ent: "entries r = map (\<lambda>i. (i, cachedSize c i)) (sort_key (\<lambda>i. - cachedSize c i) kept)"
    by auto
  let ?f = "\<lambda>i. - cachedSize c i"
  have "sorted (map ?f (sort_key ?f kept))" by (rule sorted_sort_key)
  then have "sorted_wrt (\<lambda>a b. cachedSize c b \<le> cachedSize c a) (sort_key ?f kept)"
    by (simp add: sorted_map sorted_wrt_map)
  then have one: "sorted_wrt (\<lambda>a b. snd b \<le> snd a) (entries r)"
    by (simp add: ent sorted_wrt_map)
  have two: "subseq (map fst (filter (\<lambda>e. snd e = k) (entries r)))
                    (yieldElmJsDefinitionInfos parsed)" for k
  proof -
    have "map fst (filter (\<lambda>e. snd e = k) (entries r))
            = filter (\<lambda>i. ?f i = - k) (sort_key ?f kept)"
      by (simp add: ent filter_map comp_def)
    also have "\<dots> = filter (\<lambda>i. ?f i = - k) kept" by (rule sort_key_stable)
    finally have "subseq (map fst (filter (\<lambda>e. snd e = k) (entries r))) kept"
      by simp
    then show ?thesis using sub by (rule subseq_order.trans)
  qed
  from one two show ?thesis by blast
qed


theorem report_sorted_stable_witness:
  "exA_parse exA_code = Inr exA_program
   \<and> process exA_parse exA_code (Some exA_code) (Some identityConsumer) = Inr exA_report
   \<and> sorted_wrt (\<lambda>a b. snd b \<le> snd a) (entries exA_report)
   \<and> subseq (map fst (filter (\<lambda>e. snd e = 3) (entries exA_report)))
             (yieldElmJsDefinitionInfos exA_program)"
proof -
  from report_sorted_stable [OF exA_parsed exA_run]
  have "sorted_wrt (\<lambda>a b. snd b \<le> snd a) (entries exA_report)
        \<and> subseq (map fst (filter (\<lambda>e. snd e = 3) (entries exA_report)))
                  (yieldElmJsDefinitionInfos exA_program)"
    by blast
  with exA_parsed exA_run show ?thesis by simp
qed

text \<open>
  Claim C10. The name of every entry of a report contains the character \<^verbatim>\<open>$\<close>, and the
  attributed size is the sum of the sizes of the entries, so a definition without \<^verbatim>\<open>$\<close>
  adds nothing to it. The test is the fixed \<^verbatim>\<open>indexOf('$')\<close> of the filter: \<open>process\<close>
  has no predicate among its arguments.
\<close>

theorem report_names_contain_dollar:
  assumes "process parseScript src compressedCode cons = Inr r"
  shows "(\<forall>e \<in> set (entries r). CHR ''$'' \<in> set (name (fst e)))
         \<and> rangeSum r = sum_list (map snd (entries r))"
proof -
  from process_report [OF assms] obtain c kept where
    k: "\<forall>i \<in> set kept. retained c i \<and> CHR ''$'' \<in> set (name i)" and
    ent: "entries r = map (\<lambda>i. (i, cachedSize c i)) (sort_key (\<lambda>i. - cachedSize c i) kept)" and
    sum: "rangeSum r = sum_list (map (cachedSize c) (sort_key (\<lambda>i. - cachedSize c i) kept))"
    by auto
  from k ent have "\<forall>e \<in> set (entries r). CHR ''$'' \<in> set (name (fst e))"
    by auto
  moreover from ent sum have "rangeSum r = sum_list (map snd (entries r))"
    by (simp add: comp_def)
  ultimately show ?thesis by simp
qed


theorem report_names_contain_dollar_witness:
  "process exA_parse exA_code (Some exA_code) (Some identityConsumer) = Inr exA_report
   \<and> list_all (\<lambda>e. CHR ''$'' \<in> set (name (fst e))) (entries exA_report)
   \<and> rangeSum exA_report = sum_list (map snd (entries exA_report))"
proof -
  from report_names_contain_dollar [OF exA_run]
  have "list_all (\<lambda>e. CHR ''$'' \<in> set (name (fst e))) (entries exA_report)
        \<and> rangeSum exA_report = sum_list (map snd (entries exA_report))"
    by (simp add: list_all_iff)
  with exA_run show ?thesis by simp
qed





section \<open>The translator\<close>

lemma offsetLoop_ge: "offsetLoop splat mline lineNumber result = Inr v \<Longrightarrow> result \<le> v"
proof (induction splat mline lineNumber result rule: offsetLoop.induct)
  case (1 splat mline lineNumber result)
  show ?case
  proof (cases "lineNumber < mline")
    case True
    with "1.prems" have inr: "lineNumber - 1 < length splat"
      by (cases "lineNumber - 1 < length splat") (simp_all add: offsetLoop.simps [of splat mline lineNumber])
    with True "1.prems"
    have "offsetLoop splat mline (Suc lineNumber)
            (result + int (length (splat ! (lineNumber - 1))) + 1) = Inr v"
      by (simp add: offsetLoop.simps [of splat mline lineNumber])
    from "1.IH" [OF True inr this] show ?thesis by simp
  next
    case False
    with "1.prems" show ?thesis by (simp add: offsetLoop.simps [of splat mline lineNumber])
  qed
qed

lemma translate_unmapped:
  "unmapped cons src k b \<Longrightarrow> translate cons src splat k b = Inr JNull"
  by (auto simp: unmapped_def translate_def split: prod.splits)

lemma translate_JNull:
  "translate cons src splat k b = Inr JNull \<Longrightarrow> unmapped cons src k b"
  by (auto simp: unmapped_def translate_def split: prod.splits option.splits sum.splits)

lemma translate_nonneg:
  "translate cons src splat k b = Inr r \<Longrightarrow> 0 \<le> toNumber r"
  by (cases r) (auto simp: translate_def split: prod.splits option.splits sum.splits
      dest!: offsetLoop_ge)

lemma compressIndex_miss:
  "consumerOf ev = Some cons \<Longrightarrow> c k = None \<Longrightarrow>
   translate cons (code ev) (compressedSplat ev) k b = Inr r \<Longrightarrow>
   compressIndex ev c k b = Inr (r, c(k \<mapsto> r))"
  by (simp add: compressIndex_def)

lemma compressIndex_same_offset:
  assumes "compressIndex ev c e b1 = Inr (r1, c1)" and "c1 \<subseteq>\<^sub>m c'"
    and "compressIndex ev c' e b2 = Inr (r2, c2)"
  shows "r2 = r1"
proof (cases "consumerOf ev")
  case None
  with assms(1,3) show ?thesis by (simp add: compressIndex_def)
next
  case (Some cons)
  from compressIndex_Inr [OF Some assms(1)] have "c1 e = Some r1" by simp
  with assms(2) have "c' e = Some r1" by (simp add: map_le_Some)
  from compressIndex_hit [where c = c', OF Some this] assms(3) show ?thesis by simp
qed

lemma split_nl_no_newline: "CHR 0x0A \<notin> set s \<Longrightarrow> split_nl s = [s]"
  by (induction s) auto

text \<open>
  Claim C2, evaluated on run E. The cache is keyed by the offset alone. The end of
  \<^verbatim>\<open>$f\<close> and the start of \<^verbatim>\<open>$g\<close> are both offset 27; the translation of 27 is 26
  with the right boundary and 27 with the left one, but after the query for the end of
  \<^verbatim>\<open>$f\<close> the query for the start of \<^verbatim>\<open>$g\<close> reads 26 back from the cache, so
  \<^verbatim>\<open>$g\<close> is reported with size 15 and put before \<^verbatim>\<open>$f\<close> of size 14.
\<close>

theorem memo_ignores_boundary:
  "translate identityConsumer exE_code (split_nl exE_code) 27 True = Inr (JNum 26)
   \<and> translate identityConsumer exE_code (split_nl exE_code) 27 False = Inr (JNum 27)
   \<and> compressIndex exE_env Map.empty 27 True = Inr (JNum 26, [27 \<mapsto> JNum 26])
   \<and> compressIndex exE_env [27 \<mapsto> JNum 26] 27 False = Inr (JNum 26, [27 \<mapsto> JNum 26])
   \<and> compressRange exE_env \<lparr>name = ''$g'', irange = (27, 42)\<rparr>
        ([12 \<mapsto> JNum 12, 27 \<mapsto> JNum 26], [])
       = Inr (Some (JNum 26, JNum 41), ([12 \<mapsto> JNum 12, 27 \<mapsto> JNum 26, 42 \<mapsto> JNum 41], []))
   \<and> process exE_parse exE_code (Some exE_code) (Some identityConsumer) = Inr exE_report"
  by (simp add: eval_defs exE_parse_def exE_code_def exE_program_def identityConsumer_def
      exE_env_def exE_report_def)

section \<open>The translation without the cache\<close>

lemma split_nl_nonempty: "split_nl s \<noteq> []"
  by (induction s) (auto split: list.splits)

lemma split_nl_snoc:
  "split_nl (xs @ [c]) =
     (if c = CHR 0x0A then split_nl xs @ [ [] ]
      else butlast (split_nl xs) @ [last (split_nl xs) @ [c]])"
proof (induction xs)
  case Nil
  show ?case by simp
next
  case (Cons x xs)
  from split_nl_nonempty [of xs] obtain l ls where ls: "split_nl xs = l # ls"
    by (cases "split_nl xs") auto
  from split_nl_nonempty [of "xs @ [c]"] obtain m ms where ms: "split_nl (xs @ [c]) = m # ms"
    by (cases "split_nl (xs @ [c])") auto
  show ?case
  proof (cases "x = CHR 0x0A")
    case True
    with Cons show ?thesis by (simp add: split_nl_nonempty)
  next
    case False
    with Cons ls show ?thesis
      by (cases ls) (auto split: list.splits)
  qed
qed

lemma indexToLineColumn_step:
  assumes "n < length src"
  shows "indexToLineColumn src (int (Suc n)) False =
           (if src ! n = CHR 0x0A then (Suc (fst (indexToLineColumn src (int n) False)), 0)
            else (fst (indexToLineColumn src (int n) False),
                  Suc (snd (indexToLineColumn src (int n) False))))"
proof -
  have "nat (int (Suc n)) = Suc n" by simp
  with assms have a: "slice0 src (int (Suc n)) = take n src @ [src ! n]"
    unfolding slice0_def Let_def by (simp add: min_def take_Suc_conv_app_nth del: of_nat_Suc)
  from assms have b: "slice0 src (int n) = take n src"
    by (simp add: slice0_def Let_def min_def)
  show ?thesis
    by (simp add: indexToLineColumn_def Let_def a b split_nl_snoc split_nl_nonempty
        del: of_nat_Suc)
qed

lemma indexToLineColumn_right: "indexToLineColumn src e True = indexToLineColumn src (e - 1) False"
  by (simp add: indexToLineColumn_def)

lemma indexToLineColumn_posLe:
  assumes "1 \<le> e" and "e \<le> int (length src)"
  shows "posLe (indexToLineColumn src e True) (indexToLineColumn src e False)"
proof -
  define n where "n = nat (e - 1)"
  from assms have n: "e = int (Suc n)" "n < length src"
    by (simp_all add: n_def)
  from indexToLineColumn_step [OF n(2)] n(1)
  show ?thesis
    by (auto simp: indexToLineColumn_right posLe_def)
qed

lemma offsetLoop_shift:
  "offsetLoop splat m l r = Inr v \<Longrightarrow> offsetLoop splat m l (r + d) = Inr (v + d)"
proof (induction splat m l r arbitrary: v rule: offsetLoop.induct)
  case (1 splat mline lineNumber result)
  show ?case
  proof (cases "lineNumber < mline")
    case True
    with "1.prems" have inr: "lineNumber - 1 < length splat"
      by (cases "lineNumber - 1 < length splat")
         (simp_all add: offsetLoop.simps [of splat mline lineNumber])
    with True "1.prems"
    have "offsetLoop splat mline (Suc lineNumber)
            (result + int (length (splat ! (lineNumber - 1))) + 1) = Inr v"
      by (simp add: offsetLoop.simps [of splat mline lineNumber])
    from "1.IH" [OF True inr this]
    have "offsetLoop splat mline (Suc lineNumber)
            (result + int (length (splat ! (lineNumber - 1))) + 1 + d) = Inr (v + d)" .
    moreover have "result + int (length (splat ! (lineNumber - 1))) + 1 + d
                     = result + d + int (length (splat ! (lineNumber - 1))) + 1"
      by simp
    ultimately show ?thesis using True inr
      by (simp only: offsetLoop.simps [of splat mline lineNumber "result + d"] if_True)
  next
    case False
    with "1.prems" show ?thesis
      by (simp add: offsetLoop.simps [of splat mline lineNumber])
  qed
qed

lemma offsetLoop_split:
  "l \<le> m \<Longrightarrow> m \<le> m' \<Longrightarrow> offsetLoop splat m' l r = Inr v' \<Longrightarrow>
   \<exists>v. offsetLoop splat m l r = Inr v \<and> offsetLoop splat m' m v = Inr v'"
proof (induction splat m' l r rule: offsetLoop.induct)
  case (1 splat mline lineNumber result)
  show ?case
  proof (cases "lineNumber < m")
    case True
    with "1.prems" have lt: "lineNumber < mline" by simp
    with "1.prems" have inr: "lineNumber - 1 < length splat"
      by (cases "lineNumber - 1 < length splat")
         (simp_all add: offsetLoop.simps [of splat mline lineNumber])
    with lt "1.prems"
    have "offsetLoop splat mline (Suc lineNumber)
            (result + int (length (splat ! (lineNumber - 1))) + 1) = Inr v'"
      by (simp add: offsetLoop.simps [of splat mline lineNumber])
    with "1.IH" [OF lt inr] True "1.prems"(2)
    obtain v where "offsetLoop splat m (Suc lineNumber)
            (result + int (length (splat ! (lineNumber - 1))) + 1) = Inr v"
      "offsetLoop splat mline m v = Inr v'"
      by auto
    with True inr show ?thesis
      by (simp add: offsetLoop.simps [of splat m lineNumber])
  next
    case False
    with "1.prems"(1) have "lineNumber = m" by simp
    with "1.prems"(3) show ?thesis
      by (simp add: offsetLoop.simps [of splat m m])
  qed
qed

lemma offsetLoop_first:
  assumes "m < m'" and "offsetLoop splat m' m v = Inr v'"
  shows "v + int (length (splat ! (m - 1))) + 1 \<le> v'"
proof -
  from assms have inr: "m - 1 < length splat"
    by (cases "m - 1 < length splat") (simp_all add: offsetLoop.simps [of splat m' m])
  with assms have "offsetLoop splat m' (Suc m) (v + int (length (splat ! (m - 1))) + 1) = Inr v'"
    by (simp add: offsetLoop.simps [of splat m' m])
  then show ?thesis by (rule offsetLoop_ge)
qed

lemma offset_monotone:
  assumes le: "posLe (ml, mc) (ml', mc')"
    and within: "1 \<le> ml" "mc \<le> length (splat ! (ml - 1))"
    and a: "offsetLoop splat ml 1 (int mc) = Inr a"
    and b: "offsetLoop splat ml' 1 (int mc') = Inr b"
  shows "a \<le> b"
proof (cases "ml < ml'")
  case True
  with within(1) offsetLoop_split [of 1 ml ml' splat "int mc'" b] b
  obtain v where v: "offsetLoop splat ml 1 (int mc') = Inr v" "offsetLoop splat ml' ml v = Inr b"
    by auto
  from offsetLoop_shift [OF a, of "int mc' - int mc"] v(1) have "v = a + (int mc' - int mc)"
    by simp
  moreover from offsetLoop_first [OF True v(2)] have "v + int (length (splat ! (ml - 1))) + 1 \<le> b" .
  ultimately show ?thesis using within(2) by simp
next
  case False
  with le have eq: "ml' = ml" "mc \<le> mc'" by (simp_all add: posLe_def)
  from offsetLoop_shift [OF a, of "int mc' - int mc"] b eq have "b = a + (int mc' - int mc)"
    by simp
  with eq show ?thesis by simp
qed

lemma translate_mapped_monotone:
  assumes e: "1 \<le> e" "e \<le> int (length src)"
    and mono: "monotoneTable cons"
    and r: "translate cons src splat e True = Inr (JNum a)"
    and l: "translate cons src splat e False = Inr (JNum b)"
    and within: "\<forall>p. (case indexToLineColumn src e True of
                        (line, column) \<Rightarrow> generatedPositionFor cons line column) = Some p
                    \<longrightarrow> withinText splat p"
  shows "a \<le> b"
proof -
  obtain l1 c1 where lc1: "indexToLineColumn src e True = (l1, c1)" by fastforce
  obtain l2 c2 where lc2: "indexToLineColumn src e False = (l2, c2)" by fastforce
  from r lc1 obtain ml mc where g1: "generatedPositionFor cons l1 c1 = Some (ml, mc)"
    and o1: "offsetLoop splat ml 1 (int mc) = Inr a"
    by (auto simp: translate_def split: option.splits sum.splits)
  from l lc2 obtain ml' mc' where g2: "generatedPositionFor cons l2 c2 = Some (ml', mc')"
    and o2: "offsetLoop splat ml' 1 (int mc') = Inr b"
    by (auto simp: translate_def split: option.splits sum.splits)
  from indexToLineColumn_posLe [OF e] lc1 lc2 have "posLe (l1, c1) (l2, c2)" by simp
  with mono g1 g2 have le: "posLe (ml, mc) (ml', mc')"
    unfolding monotoneTable_def by blast
  from within lc1 g1 have "withinText splat (ml, mc)" by simp
  then have w: "1 \<le> ml" "mc \<le> length (splat ! (ml - 1))"
    by (simp_all add: withinText_def)
  from offset_monotone [OF le w o1 o2] show ?thesis .
qed

text \<open>
  Claim C8, as stated, bounds the translation of a shared offset with the right boundary
  by its translation with the left boundary for every table. Run I refutes it: offset 27
  is the end of \<^verbatim>\<open>$f\<close> and the start of \<^verbatim>\<open>$g\<close>; the table sends the last character
  of \<^verbatim>\<open>$f\<close> to column 10 and the first character of \<^verbatim>\<open>$g\<close> to column 5, so the
  translator computes 10 with the right boundary and 5 with the left one.
\<close>

theorem boundary_mode_counterexample:
  "indexToLineColumn exE_code 27 True = (1, 26)
   \<and> generatedPositionFor exI_consumer 1 26 = Some (1, 10)
   \<and> indexToLineColumn exE_code 27 False = (1, 27)
   \<and> generatedPositionFor exI_consumer 1 27 = Some (1, 5)
   \<and> translate exI_consumer exE_code (split_nl exE_code) 27 True = Inr (JNum 10)
   \<and> translate exI_consumer exE_code (split_nl exE_code) 27 False = Inr (JNum 5)
   \<and> compressIndex exI_env Map.empty 27 True = Inr (JNum 10, [27 \<mapsto> JNum 10])
   \<and> compressIndex exI_env Map.empty 27 False = Inr (JNum 5, [27 \<mapsto> JNum 5])
   \<and> \<not> toNumber (JNum 10) \<le> toNumber (JNum 5)"
  by (simp add: eval_defs exI_env_def exI_consumer_def exE_code_def)

text \<open>
  Claim C8, amended. Let two adjacent constructs share the offset \<open>e\<close> of the text, at
  least 1. If the table keeps the order of positions, answers for the last character of
  the first construct a position that lies within its line of the minified text, and
  maps the first character of the second construct, then the translation computed for
  \<open>e\<close> with the right boundary does not exceed the one computed with the left boundary.
\<close>

theorem translate_boundary_monotone:
  assumes e: "1 \<le> e" "e \<le> int (length src)"
    and mono: "monotoneTable cons"
    and within: "\<forall>p. (case indexToLineColumn src e True of
                        (line, column) \<Rightarrow> generatedPositionFor cons line column) = Some p
                    \<longrightarrow> withinText splat p"
    and r: "translate cons src splat e True = Inr ra"
    and l: "translate cons src splat e False = Inr rb"
    and mapped: "rb \<noteq> JNull"
  shows "toNumber ra \<le> toNumber rb"
proof (cases ra)
  case JNull
  with translate_nonneg [OF l] show ?thesis by simp
next
  case (JNum a)
  from mapped obtain b where b: "rb = JNum b" by (cases rb) simp_all
  from translate_mapped_monotone [OF e mono r [unfolded JNum] l [unfolded b] within] JNum b
  show ?thesis by simp
qed

theorem translate_boundary_monotone_witness:
  "translate identityConsumer exE_code (split_nl exE_code) 27 True = Inr (JNum 26)
   \<and> translate identityConsumer exE_code (split_nl exE_code) 27 False = Inr (JNum 27)
   \<and> toNumber (JNum 26) \<le> toNumber (JNum 27)"
proof -
  have mono: "monotoneTable identityConsumer"
    by (simp add: monotoneTable_def identityConsumer_def)
  have e: "(1::int) \<le> 27" "27 \<le> int (length exE_code)"
    by (simp_all add: exE_code_def)
  have r: "translate identityConsumer exE_code (split_nl exE_code) 27 True = Inr (JNum 26)"
    by (simp add: eval_defs exE_code_def identityConsumer_def)
  have l: "translate identityConsumer exE_code (split_nl exE_code) 27 False = Inr (JNum 27)"
    by (simp add: eval_defs exE_code_def identityConsumer_def)
  have w: "\<forall>p. (case indexToLineColumn exE_code 27 True of
                  (line, column) \<Rightarrow> generatedPositionFor identityConsumer line column) = Some p
              \<longrightarrow> withinText (split_nl exE_code) p"
    by (simp add: eval_defs exE_code_def identityConsumer_def withinText_def)
  have m: "JNum 27 \<noteq> JNull" by simp
  from translate_boundary_monotone [OF e mono w r l m] r l show ?thesis by simp
qed

text \<open>
  The other two hypotheses are needed as well: with a generated column behind the end of
  its line (run J), and with an unmapped first character of the second construct, whose
  \<^verbatim>\<open>null\<close> counts as 0 (run K), the bound fails for tables that keep the order.
\<close>

lemma boundary_needs_within:
  "translate exJ_consumer exE_code exJ_splat 27 True = Inr (JNum 100)
   \<and> translate exJ_consumer exE_code exJ_splat 27 False = Inr (JNum 3)
   \<and> \<not> toNumber (JNum 100) \<le> toNumber (JNum 3)"
  by (simp add: eval_defs exJ_consumer_def exJ_splat_def exE_code_def)

lemma boundary_needs_mapped:
  "translate exK_consumer exE_code (split_nl exE_code) 27 True = Inr (JNum 3)
   \<and> translate exK_consumer exE_code (split_nl exE_code) 27 False = Inr JNull
   \<and> \<not> toNumber (JNum 3) \<le> toNumber JNull"
  by (simp add: eval_defs exK_consumer_def exE_code_def)

lemma monotoneTable_runs: "monotoneTable exJ_consumer \<and> monotoneTable exK_consumer"
  by (auto simp: monotoneTable_def exJ_consumer_def exK_consumer_def posLe_def
      split: if_splits)

section \<open>The range attributor\<close>

text \<open>
  Claim C3, as stated, tells the two cases of a negative range apart by the lines of the
  translated endpoints. Run D refutes it: the second declarator starts on generated line
  2 and ends on generated line 1, its size is negative, and it is discarded with no
  diagnostic, because the program compares the lines of the unminified text.
\<close>

theorem negative_range_counterexample:
  "indexToLineColumn exB_code 21 False = (1, 21)
   \<and> generatedPositionFor exD_consumer 1 21 = Some (2, 0)
   \<and> indexToLineColumn exB_code 25 True = (1, 24)
   \<and> generatedPositionFor exD_consumer 1 24 = Some (1, 3)
   \<and> compressIndex exD_env Map.empty 21 False = Inr (JNum 5, [21 \<mapsto> JNum 5])
   \<and> compressIndex exD_env [21 \<mapsto> JNum 5] 25 True = Inr (JNum 3, [21 \<mapsto> JNum 5, 25 \<mapsto> JNum 3])
   \<and> compressRange exD_env \<lparr>name = ''$b'', irange = (21, 25)\<rparr> (Map.empty, [])
       = Inr (None, ([21 \<mapsto> JNum 5, 25 \<mapsto> JNum 3], []))
   \<and> process exD_parse exB_code (Some exD_minified) (Some exD_consumer) = Inr exD_report
   \<and> diagnostics exD_report = []"
  by (simp add: eval_defs exD_parse_def exB_code_def exB_program_def exD_minified_def
      exD_consumer_def exD_env_def exD_report_def)

text \<open>
  Claim C3, amended. For a definition whose translated size is negative: when its start
  and its last character lie on the same line of the unminified text it is discarded
  silently; when they lie on different lines it is discarded and one diagnostic is
  logged, with its name, its range, the two generated positions and the translated
  range. In both cases \<^verbatim>\<open>compressRange\<close> returns \<^verbatim>\<open>null\<close>: the run is not aborted.
\<close>

theorem negative_range_policy:
  assumes "consumerOf ev = Some cons"
    and "compressIndex ev c (fst (irange i)) False = Inr (r0, c1)"
    and "compressIndex ev c1 (snd (irange i)) True = Inr (r1, c2)"
    and "rangeSize (toNumber r0, toNumber r1) < 0"
  shows "(fst (indexToLineColumn (code ev) (fst (irange i)) False)
            = fst (indexToLineColumn (code ev) (snd (irange i)) True)
          \<longrightarrow> compressRange ev i (c, lg) = Inr (None, (c2, lg)))
       \<and> (fst (indexToLineColumn (code ev) (fst (irange i)) False)
            \<noteq> fst (indexToLineColumn (code ev) (snd (irange i)) True)
          \<longrightarrow> (\<exists>d. compressRange ev i (c, lg) = Inr (None, (c2, lg @ [d]))
                   \<and> d_name d = name i \<and> d_range d = irange i
                   \<and> map m_mapped (d_mapped d)
                       = [case indexToLineColumn (code ev) (fst (irange i)) False of
                            (line, column) \<Rightarrow> generatedPositionFor cons line column,
                          case indexToLineColumn (code ev) (snd (irange i)) True of
                            (line, column) \<Rightarrow> generatedPositionFor cons line column]
                   \<and> d_compressed d = (r0, r1)))"
  using assms
  by (auto simp: compressRange_def diagnosticOf_def mappedEntry_def Let_def split: prod.splits)

theorem negative_range_policy_witness:
  "compressIndex exD_env Map.empty 21 False = Inr (JNum 5, [21 \<mapsto> JNum 5])
   \<and> compressIndex exD_env [21 \<mapsto> JNum 5] 25 True = Inr (JNum 3, [21 \<mapsto> JNum 5, 25 \<mapsto> JNum 3])
   \<and> rangeSize (toNumber (JNum 5), toNumber (JNum 3)) < 0
   \<and> compressRange exD_env \<lparr>name = ''$b'', irange = (21, 25)\<rparr> (Map.empty, [])
       = Inr (None, ([21 \<mapsto> JNum 5, 25 \<mapsto> JNum 3], []))
   \<and> indexToLineColumn exG_code 12 False = (1, 12)
   \<and> indexToLineColumn exG_code 28 True = (2, 0)
   \<and> compressIndex exG_env Map.empty 12 False = Inr (JNum 5, [12 \<mapsto> JNum 5])
   \<and> compressIndex exG_env [12 \<mapsto> JNum 5] 28 True = Inr (JNum 2, [12 \<mapsto> JNum 5, 28 \<mapsto> JNum 2])
   \<and> rangeSize (toNumber (JNum 5), toNumber (JNum 2)) < 0
   \<and> (\<exists>d. compressRange exG_env \<lparr>name = ''$f'', irange = (12, 28)\<rparr> (Map.empty, [])
              = Inr (None, ([12 \<mapsto> JNum 5, 28 \<mapsto> JNum 2], [d]))
            \<and> d_name d = ''$f'' \<and> d_range d = (12, 28)
            \<and> map m_mapped (d_mapped d) = [Some (1, 5), Some (1, 2)]
            \<and> d_compressed d = (JNum 5, JNum 2))"
proof -
  let ?b = "\<lparr>name = ''$b'', irange = (21, 25)\<rparr>"
  let ?f = "\<lparr>name = ''$f'', irange = (12, 28)\<rparr>"
  have consD: "consumerOf exD_env = Some exD_consumer" by (simp add: exD_env_def)
  have d0: "compressIndex exD_env Map.empty (fst (irange ?b)) False = Inr (JNum 5, [21 \<mapsto> JNum 5])"
    by (simp add: eval_defs exD_env_def exD_consumer_def exB_code_def exD_minified_def)
  have d1: "compressIndex exD_env [21 \<mapsto> JNum 5] (snd (irange ?b)) True
              = Inr (JNum 3, [21 \<mapsto> JNum 5, 25 \<mapsto> JNum 3])"
    by (simp add: eval_defs exD_env_def exD_consumer_def exB_code_def exD_minified_def)
  have dn: "rangeSize (toNumber (JNum 5), toNumber (JNum 3)) < 0" by (simp add: rangeSize_def)
  have dl: "fst (indexToLineColumn (code exD_env) (fst (irange ?b)) False)
              = fst (indexToLineColumn (code exD_env) (snd (irange ?b)) True)"
    by (simp add: eval_defs exD_env_def exB_code_def)
  from negative_range_policy [OF consD d0 d1 dn, of "[]"] dl
  have one: "compressRange exD_env ?b (Map.empty, []) = Inr (None, ([21 \<mapsto> JNum 5, 25 \<mapsto> JNum 3], []))"
    by blast
  have consG: "consumerOf exG_env = Some exG_consumer" by (simp add: exG_env_def)
  have l0: "indexToLineColumn exG_code 12 False = (1, 12)"
    by (simp add: eval_defs exG_code_def)
  have l1: "indexToLineColumn exG_code 28 True = (2, 0)"
    by (simp add: eval_defs exG_code_def)
  have g0: "compressIndex exG_env Map.empty (fst (irange ?f)) False = Inr (JNum 5, [12 \<mapsto> JNum 5])"
    by (simp add: compressIndex_def translate_def exG_env_def l0 exG_consumer_def offsetLoop.simps)
  have g1: "compressIndex exG_env [12 \<mapsto> JNum 5] (snd (irange ?f)) True
              = Inr (JNum 2, [12 \<mapsto> JNum 5, 28 \<mapsto> JNum 2])"
    by (simp add: compressIndex_def translate_def exG_env_def l1 exG_consumer_def offsetLoop.simps)
  have gn: "rangeSize (toNumber (JNum 5), toNumber (JNum 2)) < 0" by (simp add: rangeSize_def)
  have gl: "fst (indexToLineColumn (code exG_env) (fst (irange ?f)) False)
              \<noteq> fst (indexToLineColumn (code exG_env) (snd (irange ?f)) True)"
    by (simp add: exG_env_def l0 l1)
  from negative_range_policy [OF consG g0 g1 gn, of "[]"] gl
  have two: "\<exists>d. compressRange exG_env ?f (Map.empty, [])
              = Inr (None, ([12 \<mapsto> JNum 5, 28 \<mapsto> JNum 2], [d]))
            \<and> d_name d = ''$f'' \<and> d_range d = (12, 28)
            \<and> map m_mapped (d_mapped d) = [Some (1, 5), Some (1, 2)]
            \<and> d_compressed d = (JNum 5, JNum 2)"
    by (simp add: exG_env_def l0 l1 exG_consumer_def)
  from d0 d1 dn one l0 l1 g0 g1 gn two show ?thesis by simp
qed

text \<open>
  Claim C4, as stated, has the attributor return \<^verbatim>\<open>null\<close> for a definition with an
  endpoint that cannot be mapped. Run C refutes it: no endpoint of \<^verbatim>\<open>$a\<close> can be
  mapped, the translator answers \<^verbatim>\<open>null\<close> twice, the size \<^verbatim>\<open>null - null\<close> is 0, and
  \<^verbatim>\<open>$a\<close> is in the report with size 0.
\<close>

theorem unmapped_retained_counterexample:
  "unmapped exC_consumer exB_code 16 False
   \<and> unmapped exC_consumer exB_code 20 True
   \<and> compressRange exC_env \<lparr>name = ''$a'', irange = (16, 20)\<rparr> (Map.empty, [])
       = Inr (Some (JNull, JNull), ([16 \<mapsto> JNull, 20 \<mapsto> JNull], []))
   \<and> process exB_parse exB_code (Some exB_minified) (Some exC_consumer) = Inr exC_report
   \<and> (\<lparr>name = ''$a'', irange = (16, 20)\<rparr>, 0) \<in> set (entries exC_report)"
  by (simp add: unmapped_def eval_defs exB_parse_def exB_code_def exB_program_def exB_minified_def
      exC_consumer_def exC_env_def exC_report_def)


section \<open>An unmapped position within a run\<close>

lemma offsetLoop_total:
  "1 \<le> lineNumber \<Longrightarrow> mline \<le> Suc (length splat) \<Longrightarrow>
   \<exists>v. offsetLoop splat mline lineNumber result = Inr v"
proof (induction splat mline lineNumber result rule: offsetLoop.induct)
  case (1 splat mline lineNumber result)
  show ?case
  proof (cases "lineNumber < mline")
    case True
    with "1.prems" have inr: "lineNumber - 1 < length splat" by simp
    from "1.IH" [OF True inr] "1.prems"
    obtain v where "offsetLoop splat mline (Suc lineNumber)
                      (result + int (length (splat ! (lineNumber - 1))) + 1) = Inr v"
      by auto
    with True inr show ?thesis
      by (simp add: offsetLoop.simps [of splat mline lineNumber])
  next
    case False
    then show ?thesis by (simp add: offsetLoop.simps [of splat mline lineNumber])
  qed
qed

lemma translate_total:
  assumes "tableWithin cons splat"
  shows "\<exists>v. translate cons src splat k b = Inr v"
proof -
  obtain line column where lc: "indexToLineColumn src k b = (line, column)" by fastforce
  show ?thesis
  proof (cases "generatedPositionFor cons line column")
    case None
    with lc show ?thesis by (simp add: translate_def)
  next
    case (Some p)
    obtain mline mcolumn where p: "p = (mline, mcolumn)" by fastforce
    with Some assms have "mline \<le> Suc (length splat)"
      unfolding tableWithin_def by fastforce
    from offsetLoop_total [OF _ this, of 1 "int mcolumn"]
    obtain v where "offsetLoop splat mline 1 (int mcolumn) = Inr v" by auto
    with lc Some p show ?thesis by (simp add: translate_def)
  qed
qed

lemma compressIndex_total:
  assumes "consumerOf ev = Some cons" and "tableWithin cons (compressedSplat ev)"
  shows "\<exists>v c'. compressIndex ev c k b = Inr (v, c')"
proof (cases "c k")
  case None
  from translate_total [OF assms(2), of "code ev" k b]
  obtain v where "translate cons (code ev) (compressedSplat ev) k b = Inr v" by auto
  with None assms(1) show ?thesis by (simp add: compressIndex_def)
next
  case (Some v)
  with assms(1) show ?thesis by (simp add: compressIndex_def)
qed

lemma compressRange_total:
  assumes "consumerOf ev = Some cons" and "tableWithin cons (compressedSplat ev)"
  shows "\<exists>r st'. compressRange ev i st = Inr (r, st')"
proof -
  obtain c lg where st: "st = (c, lg)" by fastforce
  from compressIndex_total [OF assms] obtain r0 c1 where
    a: "compressIndex ev c (fst (irange i)) False = Inr (r0, c1)" by blast
  from compressIndex_total [OF assms] obtain r1 c2 where
    b: "compressIndex ev c1 (snd (irange i)) True = Inr (r1, c2)" by blast
  show ?thesis
    by (simp add: compressRange_def st a b assms(1))
qed

lemma filter_infos_total:
  assumes "consumerOf ev = Some cons" and "tableWithin cons (compressedSplat ev)"
  shows "\<exists>kept st'. filter_infos ev is st = Inr (kept, st')"
proof (induction "is" arbitrary: st)
  case Nil
  show ?case by simp
next
  case (Cons i "is")
  from compressRange_total [OF assms] obtain r st1 where
    "compressRange ev i st = Inr (r, st1)" by blast
  moreover from Cons obtain kept st2 where "filter_infos ev is st1 = Inr (kept, st2)" by blast
  ultimately show ?case by simp
qed

lemma filter_infos_append:
  "filter_infos ev xs st = Inr (k1, st1) \<Longrightarrow> filter_infos ev ys st1 = Inr (k2, st2) \<Longrightarrow>
   filter_infos ev (xs @ ys) st = Inr (k1 @ k2, st2)"
proof (induction xs arbitrary: st k1)
  case Nil
  then show ?case by simp
next
  case (Cons x xs)
  from Cons.prems(1) obtain r sta ka where
    cr: "compressRange ev x st = Inr (r, sta)" and
    rest: "filter_infos ev xs sta = Inr (ka, st1)" and
    k1: "k1 = (if 0 \<le> indexOf (name x) CHR ''$'' \<and> r \<noteq> None then x # ka else ka)"
    by (auto split: sum.splits)
  from Cons.IH [OF rest Cons.prems(2)] cr k1 show ?case by simp
qed

lemma compressIndex_dom:
  "compressIndex ev c k b = Inr (v, c') \<Longrightarrow> dom c' \<subseteq> insert k (dom c)"
  by (auto simp: compressIndex_def split: option.splits sum.splits if_splits)

lemma compressRange_dom:
  assumes "compressRange ev i (c, lg) = Inr (r, (c', lg'))"
  shows "dom c' \<subseteq> dom c \<union> {fst (irange i), snd (irange i)}"
proof -
  from assms obtain r0 c1 r1 where
    a: "compressIndex ev c (fst (irange i)) False = Inr (r0, c1)" and
    b: "compressIndex ev c1 (snd (irange i)) True = Inr (r1, c')"
    by (auto simp: compressRange_def split: sum.splits if_splits option.splits)
  from compressIndex_dom [OF a] compressIndex_dom [OF b] show ?thesis by blast
qed

lemma filter_infos_dom:
  "filter_infos ev is (c, lg) = Inr (kept, (c', lg')) \<Longrightarrow>
   dom c' \<subseteq> dom c \<union> set (endpointsOf is)"
proof (induction "is" arbitrary: c lg kept)
  case Nil
  then show ?case by simp
next
  case (Cons i "is")
  from Cons.prems obtain r c1 lg1 kept1 where
    cr: "compressRange ev i (c, lg) = Inr (r, (c1, lg1))" and
    rest: "filter_infos ev is (c1, lg1) = Inr (kept1, (c', lg'))"
    by (auto split: sum.splits)
  have "set (endpointsOf (i # is)) = {fst (irange i), snd (irange i)} \<union> set (endpointsOf is)"
    by (auto simp: endpointsOf_def)
  with compressRange_dom [OF cr] Cons.IH [OF rest] show ?case
    by blast
qed

lemma compressRange_Inr_iff:
  assumes "consumerOf ev = Some cons" and "compressRange ev i (c, lg) = Inr (r, (c', lg'))"
  shows "fst (irange i) \<in> dom c' \<and> snd (irange i) \<in> dom c' \<and> (r \<noteq> None \<longleftrightarrow> retained c' i)"
proof -
  from assms(2) obtain r0 c1 r1 where
    a: "compressIndex ev c (fst (irange i)) False = Inr (r0, c1)" and
    b: "compressIndex ev c1 (snd (irange i)) True = Inr (r1, c')" and
    r: "r \<noteq> None \<longleftrightarrow> 0 \<le> rangeSize (toNumber r0, toNumber r1)"
    by (auto simp: compressRange_def assms(1) split: sum.splits if_splits)
  from compressIndex_Inr [OF assms(1) a] have a': "c1 (fst (irange i)) = Some r0" by simp
  from compressIndex_Inr [OF assms(1) b] have b': "c' (snd (irange i)) = Some r1" "c1 \<subseteq>\<^sub>m c'"
    by simp_all
  from a' b'(2) have "c' (fst (irange i)) = Some r0" by (simp add: map_le_Some)
  with b'(1) r show ?thesis by (auto simp: retained_def)
qed

lemma retained_stable:
  assumes "fst (irange i) \<in> dom c" and "snd (irange i) \<in> dom c" and "c \<subseteq>\<^sub>m c'"
  shows "retained c' i = retained c i \<and> cachedSize c' i = cachedSize c i"
proof -
  from assms(1,2) obtain r0 r1 where
    r: "c (fst (irange i)) = Some r0" "c (snd (irange i)) = Some r1" by auto
  from map_le_Some [OF assms(3) r(1)] map_le_Some [OF assms(3) r(2)] r
  show ?thesis by (simp add: retained_def cachedSize_def)
qed

lemma filter_infos_kept_iff:
  assumes "consumerOf ev = Some cons"
  shows "filter_infos ev is (c, lg) = Inr (kept, (c', lg')) \<Longrightarrow>
         \<forall>j \<in> set is. j \<in> set kept \<longleftrightarrow> CHR ''$'' \<in> set (name j) \<and> retained c' j"
proof (induction "is" arbitrary: c lg kept)
  case Nil
  then show ?case by simp
next
  case (Cons i "is")
  from Cons.prems obtain r c1 lg1 kept1 where
    cr: "compressRange ev i (c, lg) = Inr (r, (c1, lg1))" and
    rest: "filter_infos ev is (c1, lg1) = Inr (kept1, (c', lg'))" and
    kept: "kept = (if 0 \<le> indexOf (name i) CHR ''$'' \<and> r \<noteq> None then i # kept1 else kept1)"
    by (auto split: sum.splits)
  from filter_infos_Inr [OF assms rest]
  have le: "c1 \<subseteq>\<^sub>m c'" and k1: "\<forall>j \<in> set kept1. retained c' j \<and> CHR ''$'' \<in> set (name j)"
    by simp_all
  from compressRange_Inr_iff [OF assms cr]
  have d: "fst (irange i) \<in> dom c1" "snd (irange i) \<in> dom c1" and ri: "r \<noteq> None \<longleftrightarrow> retained c1 i"
    by simp_all
  from retained_stable [OF d le] ri have ri': "r \<noteq> None \<longleftrightarrow> retained c' i" by simp
  have cond: "0 \<le> indexOf (name i) CHR ''$'' \<and> r \<noteq> None
                \<longleftrightarrow> CHR ''$'' \<in> set (name i) \<and> retained c' i"
    using ri' by (simp only: indexOf_nonneg)
  have head: "i \<in> set kept \<longleftrightarrow> CHR ''$'' \<in> set (name i) \<and> retained c' i"
    using kept cond k1 by (auto split: if_splits)
  have tail: "j \<in> set kept \<longleftrightarrow> CHR ''$'' \<in> set (name j) \<and> retained c' j"
    if "j \<in> set is" for j
    using Cons.IH [OF rest] that kept cond by (auto split: if_splits)
  from head tail show ?case by auto
qed

lemma process_of_filter:
  assumes parsed: "parseScript src = Inr parsed"
    and pc: "parseScript minified = Inr parsedCompressed"
    and ne: "minified \<noteq> []"
    and f: "filter_infos (runEnv src minified cons) (yieldElmJsDefinitionInfos parsed) (Map.empty, [])
              = Inr (kept, (cF, lgF))"
  shows "process parseScript src (Some minified) (Some cons)
           = Inr \<lparr>diagnostics = lgF,
                  entries = map (\<lambda>j. (j, cachedSize cF j)) (sort_key (\<lambda>j. - cachedSize cF j) kept),
                  rangeSum = sum_list (map (cachedSize cF) (sort_key (\<lambda>j. - cachedSize cF j) kept)),
                  compressedSize = rangeSize (prange parsedCompressed)\<rparr>"
proof -
  let ?ev = "runEnv src minified cons"
  let ?sorted = "sort_key (\<lambda>j. - cachedSize cF j) kept"
  have evc: "consumerOf ?ev = Some cons" by (simp add: runEnv_def)
  from filter_infos_Inr [OF evc f] have all: "\<forall>j \<in> set kept. retained cF j" by simp
  then have all': "\<forall>j \<in> set ?sorted. retained cF j" by simp
  have s: "sort_infos ?ev kept (cF, lgF) = Inr (?sorted, (cF, lgF))"
    by (rule sort_infos_cached [OF evc all])
  have z: "sizes ?ev ?sorted (cF, lgF) = Inr (map (cachedSize cF) ?sorted, (cF, lgF))"
    by (rule sizes_cached [OF evc all'])
  from f s z show ?thesis
    by (simp add: process_def parsed pc ne Let_def runEnv_def zip_map2 zip_same_conv_map)
qed

text \<open>
  Claim C4, amended. Take a run whose two parses succeed, on a minified text that is not
  empty and a table that answers only lines of that text, and a definition of the
  extracted list with two different endpoints that no earlier definition asks for, one
  of which the table cannot map. Then the translator returns \<^verbatim>\<open>null\<close> for that
  endpoint without throwing; the attributor reads \<^verbatim>\<open>null\<close> as offset 0 and returns
  \<^verbatim>\<open>null\<close> exactly when the size so computed is negative, which cannot happen when the
  start is the unmapped endpoint; the run produces its report; and the definition is an
  entry of the report, with that size, exactly when the size is not negative and its
  name contains \<^verbatim>\<open>$\<close>.
\<close>

theorem unmapped_policy:
  assumes parsed: "parseScript src = Inr parsed"
    and pc: "parseScript minified = Inr parsedCompressed"
    and ne: "minified \<noteq> []"
    and infos: "yieldElmJsDefinitionInfos parsed = pre @ i # post"
    and distinct: "fst (irange i) \<noteq> snd (irange i)"
    and fresh: "fst (irange i) \<notin> set (endpointsOf pre)" "snd (irange i) \<notin> set (endpointsOf pre)"
    and within: "tableWithin cons (split_nl minified)"
    and un: "unmapped cons src (fst (irange i)) False \<or> unmapped cons src (snd (irange i)) True"
  shows "\<exists>r kept c lg r0 r1 st'.
      process parseScript src (Some minified) (Some cons) = Inr r
    \<and> filter_infos (runEnv src minified cons) pre (Map.empty, []) = Inr (kept, (c, lg))
    \<and> translate cons src (split_nl minified) (fst (irange i)) False = Inr r0
    \<and> translate cons src (split_nl minified) (snd (irange i)) True = Inr r1
    \<and> compressIndex (runEnv src minified cons) c (fst (irange i)) False
        = Inr (r0, c(fst (irange i) \<mapsto> r0))
    \<and> compressIndex (runEnv src minified cons) (c(fst (irange i) \<mapsto> r0)) (snd (irange i)) True
        = Inr (r1, c(fst (irange i) \<mapsto> r0, snd (irange i) \<mapsto> r1))
    \<and> (unmapped cons src (fst (irange i)) False \<longrightarrow> r0 = JNull)
    \<and> (unmapped cons src (snd (irange i)) True \<longrightarrow> r1 = JNull)
    \<and> compressRange (runEnv src minified cons) i (c, lg)
        = Inr (if rangeSize (toNumber r0, toNumber r1) < 0 then None else Some (r0, r1), st')
    \<and> (unmapped cons src (fst (irange i)) False \<longrightarrow> 0 \<le> rangeSize (toNumber r0, toNumber r1))
    \<and> ((i, rangeSize (toNumber r0, toNumber r1)) \<in> set (entries r)
          \<longleftrightarrow> CHR ''$'' \<in> set (name i) \<and> 0 \<le> rangeSize (toNumber r0, toNumber r1))"
proof -
  let ?ev = "runEnv src minified cons"
  let ?s = "fst (irange i)" and ?e = "snd (irange i)"
  have evc: "consumerOf ?ev = Some cons" by (simp add: runEnv_def)
  have tw: "tableWithin cons (compressedSplat ?ev)" using within by (simp add: runEnv_def)
  have cd: "code ?ev = src" by (simp add: runEnv_def)
  from filter_infos_total [OF evc tw] obtain kept0 c lg where
    f0: "filter_infos ?ev pre (Map.empty, []) = Inr (kept0, (c, lg))" by fastforce
  from filter_infos_dom [OF f0] fresh have cs: "c ?s = None" and ce: "c ?e = None"
    by auto
  from translate_total [OF tw] obtain r0 where
    t0: "translate cons (code ?ev) (compressedSplat ?ev) ?s False = Inr r0" by blast
  from translate_total [OF tw] obtain r1 where
    t1: "translate cons (code ?ev) (compressedSplat ?ev) ?e True = Inr r1" by blast
  let ?c2 = "c(?s \<mapsto> r0, ?e \<mapsto> r1)"
  have a: "compressIndex ?ev c ?s False = Inr (r0, c(?s \<mapsto> r0))"
    by (rule compressIndex_miss [where c = c, OF evc cs t0])
  from ce distinct have "(c(?s \<mapsto> r0)) ?e = None" by simp
  from compressIndex_miss [where c = "c(?s \<mapsto> r0)", OF evc this t1]
  have b: "compressIndex ?ev (c(?s \<mapsto> r0)) ?e True = Inr (r1, ?c2)" .
  have u0: "r0 = JNull" if "unmapped cons src ?s False"
    using translate_unmapped [OF that, of "compressedSplat ?ev"] t0 cd by simp
  have u1: "r1 = JNull" if "unmapped cons src ?e True"
    using translate_unmapped [OF that, of "compressedSplat ?ev"] t1 cd by simp
  have "\<exists>lg2. compressRange ?ev i (c, lg)
          = Inr (if rangeSize (toNumber r0, toNumber r1) < 0 then None else Some (r0, r1), (?c2, lg2))"
    by (simp add: compressRange_def a b evc)
  then obtain lg2 where
    cr: "compressRange ?ev i (c, lg)
          = Inr (if rangeSize (toNumber r0, toNumber r1) < 0 then None else Some (r0, r1), (?c2, lg2))"
    by blast
  from filter_infos_total [OF evc tw] obtain kept2 cF lgF where
    f2: "filter_infos ?ev post (?c2, lg2) = Inr (kept2, (cF, lgF))" by fastforce
  let ?res = "if rangeSize (toNumber r0, toNumber r1) < 0 then None else Some (r0, r1)"
  let ?k1 = "if 0 \<le> indexOf (name i) CHR ''$'' \<and> ?res \<noteq> None then i # kept2 else kept2"
  from cr f2 have f1: "filter_infos ?ev (i # post) (c, lg) = Inr (?k1, (cF, lgF))"
    by simp
  from filter_infos_append [OF f0 f1] infos
  have f: "filter_infos ?ev (yieldElmJsDefinitionInfos parsed) (Map.empty, [])
             = Inr (kept0 @ ?k1, (cF, lgF))"
    by simp
  let ?kept = "kept0 @ ?k1"
  let ?r = "\<lparr>diagnostics = lgF,
             entries = map (\<lambda>j. (j, cachedSize cF j)) (sort_key (\<lambda>j. - cachedSize cF j) ?kept),
             rangeSum = sum_list (map (cachedSize cF) (sort_key (\<lambda>j. - cachedSize cF j) ?kept)),
             compressedSize = rangeSize (prange parsedCompressed)\<rparr>"
  have run: "process parseScript src (Some minified) (Some cons) = Inr ?r"
    by (rule process_of_filter [OF parsed pc ne f])
  from filter_infos_Inr [OF evc f2] have le: "?c2 \<subseteq>\<^sub>m cF" by simp
  from distinct have "?c2 ?s = Some r0" "?c2 ?e = Some r1" by simp_all
  with le have cF: "cF ?s = Some r0" "cF ?e = Some r1" by (simp_all add: map_le_Some)
  then have size: "cachedSize cF i = rangeSize (toNumber r0, toNumber r1)"
    and ret: "retained cF i \<longleftrightarrow> 0 \<le> rangeSize (toNumber r0, toNumber r1)"
    by (simp_all add: cachedSize_def retained_def)
  from infos have "i \<in> set (yieldElmJsDefinitionInfos parsed)" by simp
  with filter_infos_kept_iff [OF evc f]
  have "i \<in> set ?kept \<longleftrightarrow> CHR ''$'' \<in> set (name i) \<and> retained cF i" by blast
  with ret size
  have present: "(i, rangeSize (toNumber r0, toNumber r1)) \<in> set (entries ?r)
          \<longleftrightarrow> CHR ''$'' \<in> set (name i) \<and> 0 \<le> rangeSize (toNumber r0, toNumber r1)"
    by (auto simp: image_iff)
  have nn: "0 \<le> rangeSize (toNumber r0, toNumber r1)" if "unmapped cons src ?s False"
    using u0 [OF that] translate_nonneg [OF t1] by (simp add: rangeSize_def)
  have t0': "translate cons src (split_nl minified) ?s False = Inr r0"
    and t1': "translate cons src (split_nl minified) ?e True = Inr r1"
    using t0 t1 by (simp_all add: runEnv_def)
  from u0 u1 nn
  have imps: "(unmapped cons src ?s False \<longrightarrow> r0 = JNull)"
    "(unmapped cons src ?e True \<longrightarrow> r1 = JNull)"
    "(unmapped cons src ?s False \<longrightarrow> 0 \<le> rangeSize (toNumber r0, toNumber r1))"
    by blast+
  show ?thesis
    by (intro exI conjI) (rule run f0 t0' t1' a b imps cr present)+
qed

theorem unmapped_policy_witness:
  "process exB_parse exB_code (Some exB_minified) (Some exC_consumer) = Inr exC_report
   \<and> unmapped exC_consumer exB_code 21 False
   \<and> compressIndex (runEnv exB_code exB_minified exC_consumer) [16 \<mapsto> JNull, 20 \<mapsto> JNull] 21 False
       = Inr (JNull, [16 \<mapsto> JNull, 20 \<mapsto> JNull, 21 \<mapsto> JNull])
   \<and> compressRange (runEnv exB_code exB_minified exC_consumer)
        \<lparr>name = ''$b'', irange = (21, 25)\<rparr> ([16 \<mapsto> JNull, 20 \<mapsto> JNull], [])
       = Inr (Some (JNull, JNum 3), ([16 \<mapsto> JNull, 20 \<mapsto> JNull, 21 \<mapsto> JNull, 25 \<mapsto> JNum 3], []))
   \<and> (\<lparr>name = ''$b'', irange = (21, 25)\<rparr>, 3) \<in> set (entries exC_report)"
proof -
  let ?a = "\<lparr>name = ''$a'', irange = (16, 20)\<rparr>"
  let ?b = "\<lparr>name = ''$b'', irange = (21, 25)\<rparr>"
  let ?ev = "runEnv exB_code exB_minified exC_consumer"
  let ?c = "[16 \<mapsto> JNull, 20 \<mapsto> JNull] :: cache"
  have parsed: "exB_parse exB_code = Inr exB_program" by (simp add: exB_parse_def)
  have pc: "exB_parse exB_minified
              = Inr \<lparr>body = [ExpressionStatement OtherExpression], prange = (0, 4)\<rparr>"
    by (simp add: exB_parse_def exB_minified_def exB_code_def)
  have ne: "exB_minified \<noteq> []" by (simp add: exB_minified_def)
  have infos: "yieldElmJsDefinitionInfos exB_program = [?a] @ ?b # []"
    by (simp add: yieldElmJsDefinitionInfos_def yieldElmJsStatements_def exB_program_def)
  have distinct: "fst (irange ?b) \<noteq> snd (irange ?b)" by simp
  have fresh: "fst (irange ?b) \<notin> set (endpointsOf [?a])" "snd (irange ?b) \<notin> set (endpointsOf [?a])"
    by (simp_all add: endpointsOf_def)
  have within: "tableWithin exC_consumer (split_nl exB_minified)"
    by (simp add: tableWithin_def exC_consumer_def exB_minified_def)
  have u: "unmapped exC_consumer exB_code (fst (irange ?b)) False"
    by (simp add: unmapped_def eval_defs exC_consumer_def exB_code_def)
  have run: "process exB_parse exB_code (Some exB_minified) (Some exC_consumer) = Inr exC_report"
    by (simp add: eval_defs exB_parse_def exB_code_def exB_program_def exB_minified_def
        exC_consumer_def exC_report_def)
  have a: "compressIndex ?ev ?c 21 False = Inr (JNull, ?c(21 \<mapsto> JNull))"
    by (simp add: eval_defs runEnv_def exB_code_def exB_minified_def exC_consumer_def)
  have b: "compressIndex ?ev (?c(21 \<mapsto> JNull)) 25 True = Inr (JNum 3, ?c(21 \<mapsto> JNull, 25 \<mapsto> JNum 3))"
    by (simp add: eval_defs runEnv_def exB_code_def exB_minified_def exC_consumer_def)
  have e0: "translate exC_consumer exB_code (split_nl exB_minified) (fst (irange ?b)) False = Inr JNull"
    by (simp add: eval_defs exB_code_def exB_minified_def exC_consumer_def)
  have e1: "translate exC_consumer exB_code (split_nl exB_minified) (snd (irange ?b)) True
              = Inr (JNum 3)"
    by (simp add: eval_defs exB_code_def exB_minified_def exC_consumer_def)
  from unmapped_policy [where parseScript = exB_parse and src = exB_code and minified = exB_minified,
      OF parsed pc ne infos distinct fresh within disjI1 [OF u]]
  obtain r r0 r1 where
    t1: "process exB_parse exB_code (Some exB_minified) (Some exC_consumer) = Inr r" and
    t2: "translate exC_consumer exB_code (split_nl exB_minified) (fst (irange ?b)) False = Inr r0" and
    t3: "translate exC_consumer exB_code (split_nl exB_minified) (snd (irange ?b)) True = Inr r1" and
    t4: "(?b, rangeSize (toNumber r0, toNumber r1)) \<in> set (entries r)
          \<longleftrightarrow> CHR ''$'' \<in> set (name ?b) \<and> 0 \<le> rangeSize (toNumber r0, toNumber r1)"
    by (elim exE conjE) (rule that)
  from t1 run have r: "r = exC_report" by (simp only: sum.inject)
  from t2 e0 have r0: "r0 = JNull" by (simp only: sum.inject)
  from t3 e1 have r1: "r1 = JNum 3" by (simp only: sum.inject)
  from t4 have mem: "(?b, 3) \<in> set (entries exC_report)"
    unfolding r r0 r1 by (simp add: rangeSize_def)
  have cr: "compressRange ?ev ?b (?c, [])
         = Inr (Some (JNull, JNum 3), (?c(21 \<mapsto> JNull, 25 \<mapsto> JNum 3), []))"
    by (simp add: compressRange_def a b rangeSize_def)
  from run u a cr mem show ?thesis by simp
qed


section \<open>The scenario of the function greet\<close>

text \<open>
  Claim C1, as stated, expects one definition of size 19 and one entry at 100 percent
  for the declaration \<^verbatim>\<open>greet\<close> at the range from 0 to 19. A declaration at offset 0
  is a top-level statement (run H): no initializer encloses it and the extractor yields
  nothing. Inside an enclosing initializer (run F) the same declaration has the range
  from 12 to 31, of length 19: the mapping being the identity, the right boundary looks
  up offset 30 and nothing adds the character back, so the attributed size is 18; and
  the name \<^verbatim>\<open>greet\<close> has no \<^verbatim>\<open>$\<close>, so the report has no entry.
\<close>

theorem greet_scenario_counterexample:
  "yieldElmJsDefinitionInfos exH_program = []
   \<and> process exH_parse exH_code (Some exH_code) (Some identityConsumer)
       = Inr \<lparr>diagnostics = [], entries = [], rangeSum = 0, compressedSize = 19\<rparr>
   \<and> yieldElmJsDefinitionInfos exF_program = [\<lparr>name = ''greet'', irange = (12, 31)\<rparr>]
   \<and> rangeSize (12, 31) = 19
   \<and> compressRange exF_env \<lparr>name = ''greet'', irange = (12, 31)\<rparr> (Map.empty, [])
       = Inr (Some (JNum 12, JNum 30), ([12 \<mapsto> JNum 12, 31 \<mapsto> JNum 30], []))
   \<and> rangeSize (toNumber (JNum 12), toNumber (JNum 30)) = 18
   \<and> process exF_parse exF_code (Some exF_code) (Some identityConsumer)
       = Inr \<lparr>diagnostics = [], entries = [], rangeSum = 0, compressedSize = 35\<rparr>"
  by (simp add: eval_defs exF_parse_def exF_code_def exF_program_def identityConsumer_def
      exF_env_def exH_parse_def exH_code_def exH_program_def)

lemma indexToLineColumn_one_line:
  assumes "0 \<le> k" and "k \<le> int (length src)" and "CHR 0x0A \<notin> set (take (nat k) src)"
  shows "indexToLineColumn src k False = (1, nat k)"
proof -
  from assms(1,2) have "slice0 src k = take (nat k) src"
    by (simp add: slice0_def Let_def min_def)
  moreover from assms(1,2) have "length (take (nat k) src) = nat k" by simp
  ultimately show ?thesis using assms(3)
    by (simp add: indexToLineColumn_def split_nl_no_newline)
qed

text \<open>
  Claim C1, amended. For a text whose enclosing initializer holds exactly the function
  declaration \<^verbatim>\<open>greet\<close>, 19 characters at the range from \<open>s\<close> to \<open>s + 19\<close>, with no
  line break before its last character, with the identity table and the minified text
  equal to the text: the extractor yields the one definition \<^verbatim>\<open>greet\<close>, the attributor
  yields the range from \<open>s\<close> to \<open>s + 18\<close>, of size 18, and the report has no entry and
  the attributed size 0.
\<close>

theorem greet_scenario:
  assumes parsed: "parseScript src = Inr parsed"
    and body: "body parsed = [ExpressionStatement (CallExpression (FunctionExpression
                               [FunctionDeclaration ''greet'' (s, s + 19)]))]"
    and s: "0 \<le> s"
    and len: "s + 18 \<le> int (length src)"
    and line: "CHR 0x0A \<notin> set (take (nat (s + 18)) src)"
    and ident: "generatedPositionFor cons = (\<lambda>line column. Some (line, column))"
  shows "yieldElmJsDefinitionInfos parsed = [\<lparr>name = ''greet'', irange = (s, s + 19)\<rparr>]
       \<and> compressRange \<lparr>code = src, compressedSplat = split_nl src, consumerOf = Some cons\<rparr>
            \<lparr>name = ''greet'', irange = (s, s + 19)\<rparr> (Map.empty, [])
           = Inr (Some (JNum s, JNum (s + 18)), ([s \<mapsto> JNum s, s + 19 \<mapsto> JNum (s + 18)], []))
       \<and> rangeSize (toNumber (JNum s), toNumber (JNum (s + 18))) = 18
       \<and> process parseScript src (Some src) (Some cons)
           = Inr \<lparr>diagnostics = [], entries = [], rangeSum = 0,
                  compressedSize = rangeSize (prange parsed)\<rparr>"
proof -
  let ?ev = "\<lparr>code = src, compressedSplat = split_nl src, consumerOf = Some cons\<rparr>"
  let ?greet = "\<lparr>name = ''greet'', irange = (s, s + 19)\<rparr>"
  have infos: "yieldElmJsDefinitionInfos parsed = [?greet]"
    by (simp add: yieldElmJsDefinitionInfos_def yieldElmJsStatements_def body)
  from s have "set (take (nat s) src) \<subseteq> set (take (nat (s + 18)) src)"
    by (intro set_take_subset_set_take) simp
  with line have line0: "CHR 0x0A \<notin> set (take (nat s) src)" by blast
  from s len have lc0: "indexToLineColumn src s False = (1, nat s)"
    by (intro indexToLineColumn_one_line line0) simp_all
  have "s + 19 - 1 = s + 18" by simp
  then have "indexToLineColumn src (s + 19) True = indexToLineColumn src (s + 18) False"
    by (simp only: indexToLineColumn_def if_True if_False)
  also from s len have "\<dots> = (1, nat (s + 18))"
    by (intro indexToLineColumn_one_line line) simp_all
  finally have lc1: "indexToLineColumn src (s + 19) True = (1, nat (s + 18))" .
  from s have t0: "translate cons src (split_nl src) s False = Inr (JNum s)"
    by (simp add: translate_def lc0 ident offsetLoop.simps)
  from s have t1: "translate cons src (split_nl src) (s + 19) True = Inr (JNum (s + 18))"
    by (simp add: translate_def lc1 ident offsetLoop.simps)
  have cr: "compressRange ?ev ?greet (Map.empty, [])
              = Inr (Some (JNum s, JNum (s + 18)), ([s \<mapsto> JNum s, s + 19 \<mapsto> JNum (s + 18)], []))"
    by (simp add: compressRange_def compressIndex_def t0 t1 rangeSize_def)
  have sz: "rangeSize (toNumber (JNum s), toNumber (JNum (s + 18))) = 18"
    by (simp add: rangeSize_def)
  have cc: "(if src = [] then src else src) = src" by simp
  have "process parseScript src (Some src) (Some cons)
          = Inr \<lparr>diagnostics = [], entries = [], rangeSum = 0,
                 compressedSize = rangeSize (prange parsed)\<rparr>"
    by (simp add: process_def parsed cc infos cr Let_def)
  with infos cr sz show ?thesis by simp
qed

theorem greet_scenario_witness:
  "exF_parse exF_code = Inr exF_program
   \<and> yieldElmJsDefinitionInfos exF_program = [\<lparr>name = ''greet'', irange = (12, 31)\<rparr>]
   \<and> compressRange \<lparr>code = exF_code, compressedSplat = split_nl exF_code,
                     consumerOf = Some identityConsumer\<rparr>
        \<lparr>name = ''greet'', irange = (12, 31)\<rparr> (Map.empty, [])
       = Inr (Some (JNum 12, JNum 30), ([12 \<mapsto> JNum 12, 31 \<mapsto> JNum 30], []))
   \<and> rangeSize (toNumber (JNum 12), toNumber (JNum 30)) = 18
   \<and> process exF_parse exF_code (Some exF_code) (Some identityConsumer)
       = Inr \<lparr>diagnostics = [], entries = [], rangeSum = 0, compressedSize = 35\<rparr>"
proof -
  have parsed: "exF_parse exF_code = Inr exF_program" by (simp add: exF_parse_def)
  have body: "body exF_program = [ExpressionStatement (CallExpression (FunctionExpression
                               [FunctionDeclaration ''greet'' (12, 12 + 19)]))]"
    by (simp add: exF_program_def)
  have s: "(0::int) \<le> 12" by simp
  have len: "12 + 18 \<le> int (length exF_code)" by (simp add: exF_code_def)
  have line: "CHR 0x0A \<notin> set (take (nat (12 + 18)) exF_code)" by (simp add: exF_code_def)
  have ident: "generatedPositionFor identityConsumer = (\<lambda>line column. Some (line, column))"
    by (simp add: identityConsumer_def)
  from greet_scenario [where parseScript = exF_parse and src = exF_code and s = 12,
      OF parsed body s len line ident] parsed
  show ?thesis by (simp add: exF_program_def rangeSize_def)
qed


end
